theory Spec2Isabelle
  imports Main "HOL-Library.Char_ord" "HOL-Library.List_Lexorder"
begin

section \<open>Python values and the exceptions of the store\<close>

text \<open>
  The store of \<^verbatim>\<open>database.py\<close> keeps every collection as one JSON document and works on
  whatever \<^verbatim>\<open>json.load\<close> returns. The values are modelled as they are in Python after
  loading: \<^verbatim>\<open>None\<close>, booleans, unbounded integers, strings, lists and dictionaries. A
  dictionary is an association list in insertion order (Python dictionaries keep it);
  a loaded dictionary has pairwise distinct keys. JSON numbers with a fraction are not
  part of the model. A string is an Isabelle string: a text stands for its UTF-8 bytes.
  Equality, the substring test and the lexicographic order of the bytes are those of
  Python on the code points of the text; a code point is the run of bytes that its first
  byte announces.
\<close>

datatype json =
    JNull
  | JBool bool
  | JInt int
  | JStr string
  | JList "json list"
  | JObj "(string \<times> json) list"

text \<open>
  The exceptions the store's code can raise on a document. \<open>Unsupported\<close> is not a Python
  exception: it marks the two places where the outcome depends on library internals that
  are not modelled (the \<^verbatim>\<open>repr\<close> of a list or dictionary used as a key, and the order of
  comparisons of a sort whose keys are lists).
\<close>

datatype error = KeyError | TypeError | AttributeError | IndexError | Unsupported

definition bindE :: "error + 'a \<Rightarrow> ('a \<Rightarrow> error + 'b) \<Rightarrow> error + 'b" where
  "bindE m f = (case m of Inl e \<Rightarrow> Inl e | Inr x \<Rightarrow> f x)"

fun map_res :: "('a \<Rightarrow> error + 'b) \<Rightarrow> 'a list \<Rightarrow> error + 'b list" where
  "map_res f [] = Inr []"
| "map_res f (x # xs) = bindE (f x) (\<lambda>y. bindE (map_res f xs) (\<lambda>ys. Inr (y # ys)))"

subsection \<open>Dictionaries in insertion order\<close>

fun dict_set :: "string \<Rightarrow> json \<Rightarrow> (string \<times> json) list \<Rightarrow> (string \<times> json) list" where
  "dict_set k v [] = [(k, v)]"
| "dict_set k v ((k', v') # kvs) =
     (if k' = k then (k, v) # kvs else (k', v') # dict_set k v kvs)"

definition dict_del :: "string \<Rightarrow> (string \<times> json) list \<Rightarrow> (string \<times> json) list" where
  "dict_del k kvs = filter (\<lambda>p. fst p \<noteq> k) kvs"

subsection \<open>Strings\<close>

text \<open>
  \<^verbatim>\<open>str.lower\<close> and \<^verbatim>\<open>str.upper\<close> follow the Unicode character database, which is not
  modelled. The functions of the store that call them take them as the parameters \<open>lower\<close>
  and \<open>upper\<close>, functions on the UTF-8 bytes of a text, and what is proved of these
  functions holds for every such pair, Python's own among them. \<open>ascii_lower\<close> and
  \<open>ascii_upper\<close> change the ASCII letters only: they are what Python computes on ASCII
  text, and the examples use them.
\<close>

definition lower_char :: "char \<Rightarrow> char" where
  "lower_char c =
     (if CHR ''A'' \<le> c \<and> c \<le> CHR ''Z'' then char_of (of_char c + (32::nat)) else c)"

definition upper_char :: "char \<Rightarrow> char" where
  "upper_char c =
     (if CHR ''a'' \<le> c \<and> c \<le> CHR ''z'' then char_of (of_char c - (32::nat)) else c)"

definition ascii_lower :: "string \<Rightarrow> string" where
  "ascii_lower s = map lower_char s"

definition ascii_upper :: "string \<Rightarrow> string" where
  "ascii_upper s = map upper_char s"

text \<open>
  The code points of a text in UTF-8: the first byte of a code point tells how many bytes
  the code point has.
\<close>

definition cp_len :: "char \<Rightarrow> nat" where
  "cp_len c =
     (if (of_char c :: nat) < 0xC0 then 1
      else if (of_char c :: nat) < 0xE0 then 2
      else if (of_char c :: nat) < 0xF0 then 3
      else 4)"

fun code_points :: "string \<Rightarrow> string list" where
  "code_points [] = []"
| "code_points (c # cs) =
     (c # take (cp_len c - 1) cs) # code_points (drop (cp_len c - 1) cs)"

fun is_substr :: "string \<Rightarrow> string \<Rightarrow> bool" where
  "is_substr q [] = (q = [])"
| "is_substr q (c # cs) = (take (length q) (c # cs) = q \<or> is_substr q cs)"

text \<open>\<^verbatim>\<open>str(n)\<close> of an integer: its decimal digits, with a minus sign when negative.\<close>

fun digits :: "nat \<Rightarrow> string" where
  "digits n =
     (if n < 10 then [''0123456789'' ! n]
      else digits (n div 10) @ [''0123456789'' ! (n mod 10)])"

definition str_int :: "int \<Rightarrow> string" where
  "str_int i = (if i < 0 then CHR ''-'' # digits (nat (- i)) else digits (nat i))"

text \<open>
  \<^verbatim>\<open>str(x)\<close> of a loaded value, where it does not need \<^verbatim>\<open>repr\<close>: \<open>None\<close> for a list or a
  dictionary.
\<close>

fun py_str :: "json \<Rightarrow> string option" where
  "py_str JNull = Some ''None''"
| "py_str (JBool b) = Some (if b then ''True'' else ''False'')"
| "py_str (JInt i) = Some (str_int i)"
| "py_str (JStr s) = Some s"
| "py_str (JList xs) = None"
| "py_str (JObj kvs) = None"

subsection \<open>Operations of Python on a loaded value\<close>

text \<open>\<^verbatim>\<open>d[k]\<close> with a string \<open>k\<close>.\<close>

fun py_getitem :: "json \<Rightarrow> string \<Rightarrow> error + json" where
  "py_getitem (JObj kvs) k = (case map_of kvs k of None \<Rightarrow> Inl KeyError | Some v \<Rightarrow> Inr v)"
| "py_getitem _ k = Inl TypeError"

text \<open>\<^verbatim>\<open>d[k] = v\<close> with a string \<open>k\<close>; the updated value.\<close>

fun py_setitem :: "json \<Rightarrow> string \<Rightarrow> json \<Rightarrow> error + json" where
  "py_setitem (JObj kvs) k v = Inr (JObj (dict_set k v kvs))"
| "py_setitem _ k v = Inl TypeError"

text \<open>\<^verbatim>\<open>del d[k]\<close> with a string \<open>k\<close>; the updated value.\<close>

fun py_delitem :: "json \<Rightarrow> string \<Rightarrow> error + json" where
  "py_delitem (JObj kvs) k =
     (if k \<in> set (map fst kvs) then Inr (JObj (dict_del k kvs)) else Inl KeyError)"
| "py_delitem _ k = Inl TypeError"

text \<open>
  \<^verbatim>\<open>k in d\<close> with a string \<open>k\<close>: a key of a dictionary, an element of a list, a substring
  of a string.
\<close>

fun py_contains :: "json \<Rightarrow> string \<Rightarrow> error + bool" where
  "py_contains (JObj kvs) k = Inr (k \<in> set (map fst kvs))"
| "py_contains (JList xs) k = Inr (JStr k \<in> set xs)"
| "py_contains (JStr s) k = Inr (is_substr k s)"
| "py_contains _ k = Inl TypeError"

text \<open>\<^verbatim>\<open>d.get(k, default)\<close>; \<^verbatim>\<open>d.get(k)\<close> is \<open>py_get d k JNull\<close>.\<close>

fun py_get :: "json \<Rightarrow> string \<Rightarrow> json \<Rightarrow> error + json" where
  "py_get (JObj kvs) k dflt = Inr (case map_of kvs k of None \<Rightarrow> dflt | Some v \<Rightarrow> v)"
| "py_get _ k dflt = Inl AttributeError"

fun py_values :: "json \<Rightarrow> error + json list" where
  "py_values (JObj kvs) = Inr (map snd kvs)"
| "py_values _ = Inl AttributeError"

fun py_items :: "json \<Rightarrow> error + (string \<times> json) list" where
  "py_items (JObj kvs) = Inr kvs"
| "py_items _ = Inl AttributeError"

text \<open>Iterating a value with \<^verbatim>\<open>for x in v\<close>: the elements it yields.\<close>

fun py_iter :: "json \<Rightarrow> error + json list" where
  "py_iter (JList xs) = Inr xs"
| "py_iter (JObj kvs) = Inr (map (\<lambda>p. JStr (fst p)) kvs)"
| "py_iter (JStr s) = Inr (map JStr (code_points s))"
| "py_iter _ = Inl TypeError"

text \<open>\<^verbatim>\<open>x.lower()\<close> and \<^verbatim>\<open>x.upper()\<close>.\<close>

fun py_lower :: "(string \<Rightarrow> string) \<Rightarrow> json \<Rightarrow> error + string" where
  "py_lower lower (JStr s) = Inr (lower s)"
| "py_lower lower _ = Inl AttributeError"

fun py_upper :: "(string \<Rightarrow> string) \<Rightarrow> json \<Rightarrow> error + string" where
  "py_upper upper (JStr s) = Inr (upper s)"
| "py_upper upper _ = Inl AttributeError"

text \<open>\<^verbatim>\<open>x == s\<close> with a string \<open>s\<close>, and \<^verbatim>\<open>x == n\<close> with an integer \<open>n\<close> (\<^verbatim>\<open>True == 1\<close>).\<close>

definition py_eq_str :: "json \<Rightarrow> string \<Rightarrow> bool" where
  "py_eq_str x s = (x = JStr s)"

fun py_eq_int :: "json \<Rightarrow> int \<Rightarrow> bool" where
  "py_eq_int (JInt i) n = (i = n)"
| "py_eq_int (JBool b) n = ((if b then 1 else 0) = n)"
| "py_eq_int _ n = False"

text \<open>The truth value of a loaded value in a condition.\<close>

fun py_truthy :: "json \<Rightarrow> bool" where
  "py_truthy JNull = False"
| "py_truthy (JBool b) = b"
| "py_truthy (JInt i) = (i \<noteq> 0)"
| "py_truthy (JStr s) = (s \<noteq> [])"
| "py_truthy (JList xs) = (xs \<noteq> [])"
| "py_truthy (JObj kvs) = (kvs \<noteq> [])"

text \<open>\<^verbatim>\<open>x + 1\<close>.\<close>

fun py_add1 :: "json \<Rightarrow> error + json" where
  "py_add1 (JInt i) = Inr (JInt (i + 1))"
| "py_add1 (JBool b) = Inr (JInt ((if b then 1 else 0) + 1))"
| "py_add1 _ = Inl TypeError"

text \<open>
  \<^verbatim>\<open>xs[start:stop]\<close>: a negative bound counts from the end, and both are clipped to the
  list.
\<close>

definition clip :: "nat \<Rightarrow> int \<Rightarrow> nat" where
  "clip n i = (if i < 0 then nat (max (i + int n) 0) else min (nat i) n)"

definition py_slice :: "'a list \<Rightarrow> int \<Rightarrow> int \<Rightarrow> 'a list" where
  "py_slice xs start stop =
     (let s = clip (length xs) start; e = clip (length xs) stop
      in take (e - s) (drop s xs))"

text \<open>
  \<^verbatim>\<open>xs.sort(key=..., reverse=...)\<close> on the list of (key, element) pairs, the keys computed
  beforehand as Python does. The sort is stable; with \<^verbatim>\<open>reverse=True\<close> equal keys keep
  their order too (the list is reversed, sorted and reversed back). Integers and
  booleans compare as integers, strings as strings, anything else raises.
\<close>

fun is_intlike :: "json \<Rightarrow> bool" where
  "is_intlike (JInt i) = True"
| "is_intlike (JBool b) = True"
| "is_intlike _ = False"

fun int_of :: "json \<Rightarrow> int" where
  "int_of (JInt i) = i"
| "int_of (JBool b) = (if b then 1 else 0)"
| "int_of _ = 0"

fun is_str :: "json \<Rightarrow> bool" where
  "is_str (JStr s) = True"
| "is_str _ = False"

fun str_of :: "json \<Rightarrow> string" where
  "str_of (JStr s) = s"
| "str_of _ = []"

fun is_list :: "json \<Rightarrow> bool" where
  "is_list (JList xs) = True"
| "is_list _ = False"

fun is_dict :: "json \<Rightarrow> bool" where
  "is_dict (JObj kvs) = True"
| "is_dict _ = False"

definition stable_sort :: "bool \<Rightarrow> ('a \<Rightarrow> 'k::linorder) \<Rightarrow> 'a list \<Rightarrow> 'a list" where
  "stable_sort reverse f xs = (if reverse then rev (sort_key f (rev xs)) else sort_key f xs)"

definition py_sort :: "bool \<Rightarrow> (json \<times> json) list \<Rightarrow> error + json list" where
  "py_sort reverse kxs =
     (if length kxs \<le> 1 then Inr (map snd kxs)
      else if list_all is_intlike (map fst kxs)
        then Inr (map snd (stable_sort reverse (\<lambda>p. int_of (fst p)) kxs))
      else if list_all is_str (map fst kxs)
        then Inr (map snd (stable_sort reverse (\<lambda>p. str_of (fst p)) kxs))
      else if list_all is_list (map fst kxs) then Inl Unsupported
      else Inl TypeError)"

definition sort_by :: "bool \<Rightarrow> (json \<Rightarrow> error + json) \<Rightarrow> json list \<Rightarrow> error + json list" where
  "sort_by reverse key xs = bindE (map_res key xs) (\<lambda>ks. py_sort reverse (zip ks xs))"

section \<open>The durable documents\<close>

text \<open>
  One file per collection. A file is missing, holds text that is not JSON, or holds a
  JSON document. \<^verbatim>\<open>load_json\<close> turns the first two into the empty dictionary;
  \<^verbatim>\<open>save_json\<close> replaces the file's content (a failing write is outside the model).
\<close>

datatype path = USERS_FILE | ADMINS_FILE | MOVIES_FILE | CHANNELS_FILE | REQUESTS_FILE | TOKENS_FILE

datatype content = Absent | Malformed | Doc json

type_synonym fs = "path \<Rightarrow> content"

definition load_json :: "fs \<Rightarrow> path \<Rightarrow> json" where
  "load_json fs file_path =
     (case fs file_path of Absent \<Rightarrow> JObj [] | Malformed \<Rightarrow> JObj [] | Doc d \<Rightarrow> d)"

definition save_json :: "fs \<Rightarrow> path \<Rightarrow> json \<Rightarrow> fs" where
  "save_json fs file_path data = fs(file_path := Doc data)"

text \<open>
  A program over the files takes the files and gives what it returns or raises, and the
  files afterwards. \<open>load_json_io\<close> is the step that reads a file, \<open>lift_io\<close> a
  computation on values in memory, which cannot reach a file, and \<open>bind_io\<close> runs one step
  after another, on the files that the first has left, stopping at an exception.
\<close>

type_synonym 'a io = "fs \<Rightarrow> (error + 'a) \<times> fs"

definition load_json_io :: "path \<Rightarrow> json io" where
  "load_json_io file_path = (\<lambda>fs. (Inr (load_json fs file_path), fs))"

definition lift_io :: "error + 'a \<Rightarrow> 'a io" where
  "lift_io m = (\<lambda>fs. (m, fs))"

definition bind_io :: "'a io \<Rightarrow> ('a \<Rightarrow> 'b io) \<Rightarrow> 'b io" where
  "bind_io m f =
     (\<lambda>fs. case m fs of (Inl e, fs') \<Rightarrow> (Inl e, fs') | (Inr x, fs') \<Rightarrow> f x fs')"

definition OWNER_ID :: int where
  "OWNER_ID = 5379553841"

text \<open>The category \<^verbatim>\<open>"All "\<close> followed by the globe sign U+1F310, in UTF-8.\<close>

definition ALL_CATEGORY :: string where
  "ALL_CATEGORY = ''All '' @ [CHR 0xF0, CHR 0x9F, CHR 0x8C, CHR 0x90]"

text \<open>
  The functions of the store that have no \<^verbatim>\<open>save_json\<close> in their body are written as
  programs over the files (\<open>user_exists_io\<close>, \<open>get_pending_requests_io\<close>, ...), made of the
  steps that load the documents and of the computation in memory that follows; the
  function without the suffix is what the call returns or raises. A function that writes
  is given as the function from the files to its result and the files afterwards. An
  exception leaves the files as they were: every function of the store calls
  \<^verbatim>\<open>save_json\<close> last.
\<close>

definition finish :: "fs \<Rightarrow> error + ('a \<times> fs) \<Rightarrow> (error + 'a) \<times> fs" where
  "finish fs r = (case r of Inl e \<Rightarrow> (Inl e, fs) | Inr (x, fs') \<Rightarrow> (Inr x, fs'))"

definition opt_str :: "string option \<Rightarrow> json" where
  "opt_str s = (case s of None \<Rightarrow> JNull | Some t \<Rightarrow> JStr t)"

definition initialize_database :: "fs \<Rightarrow> fs" where
  "initialize_database fs =
     (\<lambda>file_path.
        case fs file_path of
          Absent \<Rightarrow>
            Doc (case file_path of
                   MOVIES_FILE \<Rightarrow> JObj [(''next_id'', JInt 1), (''movies'', JObj [])]
                 | REQUESTS_FILE \<Rightarrow> JObj [(''next_id'', JInt 1), (''requests'', JObj [])]
                 | _ \<Rightarrow> JObj [])
        | c \<Rightarrow> c)"

section \<open>Users\<close>

definition user_exists_io :: "int \<Rightarrow> bool io" where
  "user_exists_io user_id =
     bind_io (load_json_io USERS_FILE) (\<lambda>users.
       lift_io (py_contains users (str_int user_id)))"

definition user_exists :: "fs \<Rightarrow> int \<Rightarrow> error + bool" where
  "user_exists fs user_id = fst (user_exists_io user_id fs)"

definition add_user_if_not_exists ::
  "fs \<Rightarrow> string \<Rightarrow> int \<Rightarrow> string \<Rightarrow> string option \<Rightarrow> (error + bool) \<times> fs" where
  "add_user_if_not_exists fs now user_id first_name username =
     (let users = load_json fs USERS_FILE; user_id_str = str_int user_id in
      finish fs
        (bindE (py_contains users user_id_str) (\<lambda>present.
           if \<not> present then
             bindE (py_setitem users user_id_str
                      (JObj [(''user_id'', JInt user_id), (''first_name'', JStr first_name),
                             (''username'', opt_str username), (''joined_at'', JStr now),
                             (''is_active'', JBool True)]))
               (\<lambda>users'. Inr (True, save_json fs USERS_FILE users'))
           else
             bindE (py_getitem users user_id_str) (\<lambda>user.
             bindE (py_get user ''first_name'' JNull) (\<lambda>fn.
             bindE (if fn \<noteq> JStr first_name
                    then py_setitem user ''first_name'' (JStr first_name) else Inr user) (\<lambda>user1.
             bindE (py_get user1 ''username'' JNull) (\<lambda>un.
             bindE (if un \<noteq> opt_str username
                    then py_setitem user1 ''username'' (opt_str username) else Inr user1) (\<lambda>user2.
             if fn \<noteq> JStr first_name \<or> un \<noteq> opt_str username
             then bindE (py_setitem users user_id_str user2)
                    (\<lambda>users'. Inr (False, save_json fs USERS_FILE users'))
             else Inr (False, fs)))))))))"

definition get_user_role_io :: "int \<Rightarrow> string io" where
  "get_user_role_io user_id =
     (if user_id = OWNER_ID then lift_io (Inr ''owner'')
      else
        bind_io (load_json_io ADMINS_FILE) (\<lambda>admins.
          lift_io
            (bindE (py_contains admins (str_int user_id)) (\<lambda>is_admin.
               if is_admin then Inr ''admin'' else Inr ''user''))))"

definition get_user_role :: "fs \<Rightarrow> int \<Rightarrow> error + string" where
  "get_user_role fs user_id = fst (get_user_role_io user_id fs)"

section \<open>Admins\<close>

definition add_admin ::
  "fs \<Rightarrow> string \<Rightarrow> int \<Rightarrow> string \<Rightarrow> string \<Rightarrow> string option \<Rightarrow> (error + bool) \<times> fs" where
  "add_admin fs now admin_id short_name first_name username =
     (let admins = load_json fs ADMINS_FILE; admin_id_str = str_int admin_id in
      finish fs
        (bindE (py_contains admins admin_id_str) (\<lambda>present.
           if present then Inr (False, fs)
           else
             bindE (py_setitem admins admin_id_str
                      (JObj [(''user_id'', JInt admin_id), (''short_name'', JStr short_name),
                             (''first_name'', JStr first_name), (''username'', opt_str username),
                             (''added_at'', JStr now)]))
               (\<lambda>admins'. Inr (True, save_json fs ADMINS_FILE admins')))))"

definition get_admin_info_io :: "int \<Rightarrow> json io" where
  "get_admin_info_io admin_id =
     bind_io (load_json_io ADMINS_FILE) (\<lambda>admins.
       lift_io (py_get admins (str_int admin_id) JNull))"

definition get_admin_info :: "fs \<Rightarrow> int \<Rightarrow> error + json" where
  "get_admin_info fs admin_id = fst (get_admin_info_io admin_id fs)"

text \<open>
  The scan of \<^verbatim>\<open>remove_admin\<close> and \<^verbatim>\<open>remove_channel\<close> for a short name: the key of the
  first record, in the dictionary's order, whose short name is the identifier.
\<close>

fun find_short_name :: "string \<Rightarrow> (string \<times> json) list \<Rightarrow> error + string option" where
  "find_short_name identifier [] = Inr None"
| "find_short_name identifier ((record_id, record_data) # rest) =
     bindE (py_get record_data ''short_name'' JNull) (\<lambda>short_name.
       if py_eq_str short_name identifier then Inr (Some record_id)
       else find_short_name identifier rest)"

definition remove_by_identifier :: "fs \<Rightarrow> path \<Rightarrow> string \<Rightarrow> (error + bool) \<times> fs" where
  "remove_by_identifier fs file_path identifier =
     (let records = load_json fs file_path in
      finish fs
        (bindE (py_contains records identifier) (\<lambda>present.
           if present then
             bindE (py_delitem records identifier)
               (\<lambda>records'. Inr (True, save_json fs file_path records'))
           else
             bindE (py_items records) (\<lambda>items.
             bindE (find_short_name identifier items) (\<lambda>found.
               case found of
                 Some record_id \<Rightarrow>
                   bindE (py_delitem records record_id)
                     (\<lambda>records'. Inr (True, save_json fs file_path records'))
               | None \<Rightarrow> Inr (False, fs))))))"

definition remove_admin :: "fs \<Rightarrow> string \<Rightarrow> (error + bool) \<times> fs" where
  "remove_admin fs identifier = remove_by_identifier fs ADMINS_FILE identifier"

definition get_all_admins_io :: "json list io" where
  "get_all_admins_io = bind_io (load_json_io ADMINS_FILE) (\<lambda>admins. lift_io (py_values admins))"

definition get_all_admins :: "fs \<Rightarrow> error + json list" where
  "get_all_admins fs = fst (get_all_admins_io fs)"

section \<open>Movies\<close>

definition add_movie :: "fs \<Rightarrow> string \<Rightarrow> json \<Rightarrow> (error + json) \<times> fs" where
  "add_movie fs now movie_data =
     (let movies = load_json fs MOVIES_FILE in
      finish fs
        (bindE (py_getitem movies ''next_id'') (\<lambda>movie_id.
         bindE (py_setitem movie_data ''movie_id'' movie_id) (\<lambda>data1.
         bindE (py_setitem data1 ''added_at'' (JStr now)) (\<lambda>data2.
         bindE (py_setitem data2 ''download_count'' (JInt 0)) (\<lambda>data3.
         bindE (py_getitem movies ''movies'') (\<lambda>inner.
         bindE (case py_str movie_id of
                  Some key \<Rightarrow> py_setitem inner key data3
                | None \<Rightarrow> Inl TypeError) (\<lambda>inner'.
         bindE (py_add1 movie_id) (\<lambda>next_id.
         bindE (py_setitem movies ''movies'' inner') (\<lambda>movies1.
         bindE (py_setitem movies1 ''next_id'' next_id) (\<lambda>movies2.
           Inr (movie_id, save_json fs MOVIES_FILE movies2))))))))))))"

definition get_movie_details_io :: "int \<Rightarrow> json io" where
  "get_movie_details_io movie_id =
     bind_io (load_json_io MOVIES_FILE) (\<lambda>movies.
       lift_io
         (bindE (py_getitem movies ''movies'') (\<lambda>inner.
            py_get inner (str_int movie_id) JNull)))"

definition get_movie_details :: "fs \<Rightarrow> int \<Rightarrow> error + json" where
  "get_movie_details fs movie_id = fst (get_movie_details_io movie_id fs)"

fun search_loop ::
  "(string \<Rightarrow> string) \<Rightarrow> string \<Rightarrow> int \<Rightarrow> json list \<Rightarrow> json list \<Rightarrow> error + json list" where
  "search_loop lower query_lower limit [] results = Inr results"
| "search_loop lower query_lower limit (movie_data # rest) results =
     bindE (py_get movie_data ''title'' (JStr [])) (\<lambda>t.
     bindE (py_lower lower t) (\<lambda>title.
       if is_substr query_lower title then
         (let results' = results @ [movie_data] in
          if int (length results') \<ge> limit then Inr results'
          else search_loop lower query_lower limit rest results')
       else search_loop lower query_lower limit rest results))"

definition search_movies_io :: "(string \<Rightarrow> string) \<Rightarrow> string \<Rightarrow> int \<Rightarrow> json list io" where
  "search_movies_io lower query limit =
     bind_io (load_json_io MOVIES_FILE) (\<lambda>movies.
       lift_io
         (let query_lower = lower query in
          bindE (py_getitem movies ''movies'') (\<lambda>inner.
          bindE (py_values inner) (\<lambda>vals. search_loop lower query_lower limit vals []))))"

definition search_movies ::
  "(string \<Rightarrow> string) \<Rightarrow> fs \<Rightarrow> string \<Rightarrow> int \<Rightarrow> error + json list" where
  "search_movies lower fs query limit = fst (search_movies_io lower query limit fs)"

text \<open>\<^verbatim>\<open>title[0]\<close> of a value that is true in a condition.\<close>

fun py_first :: "json \<Rightarrow> error + json" where
  "py_first (JStr (c # cs)) = Inr (JStr (c # take (cp_len c - 1) cs))"
| "py_first (JStr []) = Inl IndexError"
| "py_first (JList (x # xs)) = Inr x"
| "py_first (JList []) = Inl IndexError"
| "py_first (JObj kvs) = Inl KeyError"
| "py_first _ = Inl TypeError"

fun first_letter_loop ::
  "(string \<Rightarrow> string) \<Rightarrow> string \<Rightarrow> int \<Rightarrow> json list \<Rightarrow> json list \<Rightarrow> error + json list" where
  "first_letter_loop upper letter_upper limit [] results = Inr results"
| "first_letter_loop upper letter_upper limit (movie_data # rest) results =
     bindE (py_get movie_data ''title'' (JStr [])) (\<lambda>title.
     bindE (if py_truthy title
            then bindE (py_first title) (\<lambda>c.
                 bindE (py_upper upper c) (\<lambda>u. Inr (u = letter_upper)))
            else Inr False) (\<lambda>matches.
       if matches then
         (let results' = results @ [movie_data] in
          if int (length results') \<ge> limit then Inr results'
          else first_letter_loop upper letter_upper limit rest results')
       else first_letter_loop upper letter_upper limit rest results))"

definition get_movies_by_first_letter_io ::
  "(string \<Rightarrow> string) \<Rightarrow> string \<Rightarrow> int \<Rightarrow> json list io" where
  "get_movies_by_first_letter_io upper letter limit =
     bind_io (load_json_io MOVIES_FILE) (\<lambda>movies.
       lift_io
         (let letter_upper = upper letter in
          bindE (py_getitem movies ''movies'') (\<lambda>inner.
          bindE (py_values inner) (\<lambda>vals.
            first_letter_loop upper letter_upper limit vals []))))"

definition get_movies_by_first_letter ::
  "(string \<Rightarrow> string) \<Rightarrow> fs \<Rightarrow> string \<Rightarrow> int \<Rightarrow> error + json list" where
  "get_movies_by_first_letter upper fs letter limit =
     fst (get_movies_by_first_letter_io upper letter limit fs)"

text \<open>
  The loop of \<^verbatim>\<open>get_movies_by_category\<close> that collects the movies one of whose categories
  is the category asked for.
\<close>

fun category_loop :: "string \<Rightarrow> json list \<Rightarrow> error + json list" where
  "category_loop category [] = Inr []"
| "category_loop category (movie_data # rest) =
     bindE (py_get movie_data ''categories'' (JList [])) (\<lambda>categories.
     bindE (py_iter categories) (\<lambda>cs.
     bindE (category_loop category rest) (\<lambda>found.
       Inr (if list_ex (\<lambda>movie_category. py_eq_str movie_category category) cs
            then movie_data # found else found))))"

definition title_key :: "(string \<Rightarrow> string) \<Rightarrow> json \<Rightarrow> error + json" where
  "title_key lower x =
     bindE (py_get x ''title'' (JStr [])) (\<lambda>t. bindE (py_lower lower t) (\<lambda>s. Inr (JStr s)))"

definition get_movies_by_category_io ::
  "(string \<Rightarrow> string) \<Rightarrow> string \<Rightarrow> int \<Rightarrow> int \<Rightarrow> json list io" where
  "get_movies_by_category_io lower category limit offset =
     bind_io (load_json_io MOVIES_FILE) (\<lambda>movies.
       lift_io
         (bindE (if category = ALL_CATEGORY
                 then bindE (py_getitem movies ''movies'') py_values
                 else bindE (py_getitem movies ''movies'') (\<lambda>inner.
                      bindE (py_values inner) (category_loop category))) (\<lambda>all_matching.
          bindE (sort_by False (title_key lower) all_matching) (\<lambda>sorted.
            let start_index = offset; end_index = offset + limit
            in Inr (py_slice sorted start_index end_index)))))"

definition get_movies_by_category ::
  "(string \<Rightarrow> string) \<Rightarrow> fs \<Rightarrow> string \<Rightarrow> int \<Rightarrow> int \<Rightarrow> error + json list" where
  "get_movies_by_category lower fs category limit offset =
     fst (get_movies_by_category_io lower category limit offset fs)"

definition delete_movie :: "fs \<Rightarrow> int \<Rightarrow> (error + bool) \<times> fs" where
  "delete_movie fs movie_id =
     (let movies = load_json fs MOVIES_FILE; movie_id_str = str_int movie_id in
      finish fs
        (bindE (py_getitem movies ''movies'') (\<lambda>inner.
         bindE (py_contains inner movie_id_str) (\<lambda>present.
           if present then
             bindE (py_delitem inner movie_id_str) (\<lambda>inner'.
             bindE (py_setitem movies ''movies'' inner') (\<lambda>movies'.
               Inr (True, save_json fs MOVIES_FILE movies')))
           else Inr (False, fs)))))"

definition increment_download_count :: "fs \<Rightarrow> int \<Rightarrow> (error + unit) \<times> fs" where
  "increment_download_count fs movie_id =
     (let movies = load_json fs MOVIES_FILE; movie_id_str = str_int movie_id in
      finish fs
        (bindE (py_getitem movies ''movies'') (\<lambda>inner.
         bindE (py_contains inner movie_id_str) (\<lambda>present.
           if present then
             bindE (py_getitem inner movie_id_str) (\<lambda>movie.
             bindE (py_get movie ''download_count'' (JInt 0)) (\<lambda>count.
             bindE (py_add1 count) (\<lambda>count'.
             bindE (py_setitem movie ''download_count'' count') (\<lambda>movie'.
             bindE (py_setitem inner movie_id_str movie') (\<lambda>inner'.
             bindE (py_setitem movies ''movies'' inner') (\<lambda>movies'.
               Inr ((), save_json fs MOVIES_FILE movies')))))))
           else Inr ((), fs)))))"

text \<open>
  \<^verbatim>\<open>get_movies_by_uploader\<close> iterates \<^verbatim>\<open>movies.values()\<close>, the values of the whole
  document, not those of its \<^verbatim>\<open>"movies"\<close> entry.
\<close>

definition added_by_is :: "int \<Rightarrow> json \<Rightarrow> error + bool" where
  "added_by_is admin_id movie =
     bindE (py_get movie ''added_by'' JNull) (\<lambda>a. Inr (py_eq_int a admin_id))"

definition get_movies_by_uploader_io :: "int \<Rightarrow> int \<Rightarrow> json list io" where
  "get_movies_by_uploader_io admin_id limit =
     bind_io (load_json_io MOVIES_FILE) (\<lambda>movies.
       lift_io
         (bindE (py_values movies) (\<lambda>vals.
          bindE (map_res (added_by_is admin_id) vals) (\<lambda>flags.
          let admin_movies = map snd (filter fst (zip flags vals)) in
          bindE (sort_by True (\<lambda>x. py_get x ''added_at'' (JStr [])) admin_movies) (\<lambda>sorted.
            Inr (py_slice sorted 0 limit))))))"

definition get_movies_by_uploader :: "fs \<Rightarrow> int \<Rightarrow> int \<Rightarrow> error + json list" where
  "get_movies_by_uploader fs admin_id limit = fst (get_movies_by_uploader_io admin_id limit fs)"

section \<open>Channels\<close>

definition add_channel :: "fs \<Rightarrow> string \<Rightarrow> string \<Rightarrow> string \<Rightarrow> string \<Rightarrow> (error + bool) \<times> fs" where
  "add_channel fs now channel_id channel_name short_name =
     (let channels = load_json fs CHANNELS_FILE in
      finish fs
        (bindE (py_contains channels channel_id) (\<lambda>present.
           if present then Inr (False, fs)
           else
             bindE (py_setitem channels channel_id
                      (JObj [(''channel_id'', JStr channel_id), (''channel_name'', JStr channel_name),
                             (''short_name'', JStr short_name), (''added_at'', JStr now)]))
               (\<lambda>channels'. Inr (True, save_json fs CHANNELS_FILE channels')))))"

definition remove_channel :: "fs \<Rightarrow> string \<Rightarrow> (error + bool) \<times> fs" where
  "remove_channel fs identifier = remove_by_identifier fs CHANNELS_FILE identifier"

definition get_channel_info_io :: "string \<Rightarrow> json io" where
  "get_channel_info_io channel_id =
     bind_io (load_json_io CHANNELS_FILE) (\<lambda>channels.
       lift_io (py_get channels channel_id JNull))"

definition get_channel_info :: "fs \<Rightarrow> string \<Rightarrow> error + json" where
  "get_channel_info fs channel_id = fst (get_channel_info_io channel_id fs)"

definition get_all_channels_io :: "json list io" where
  "get_all_channels_io =
     bind_io (load_json_io CHANNELS_FILE) (\<lambda>channels. lift_io (py_values channels))"

definition get_all_channels :: "fs \<Rightarrow> error + json list" where
  "get_all_channels fs = fst (get_all_channels_io fs)"

section \<open>Requests\<close>

definition add_movie_request :: "fs \<Rightarrow> string \<Rightarrow> int \<Rightarrow> string \<Rightarrow> (error + json) \<times> fs" where
  "add_movie_request fs now user_id movie_name =
     (let requests = load_json fs REQUESTS_FILE in
      finish fs
        (bindE (py_getitem requests ''next_id'') (\<lambda>request_id.
         bindE (py_getitem requests ''requests'') (\<lambda>inner.
         bindE (case py_str request_id of
                  Some key \<Rightarrow>
                    py_setitem inner key
                      (JObj [(''request_id'', request_id), (''user_id'', JInt user_id),
                             (''movie_name'', JStr movie_name), (''status'', JStr ''pending''),
                             (''requested_at'', JStr now)])
                | None \<Rightarrow> Inl TypeError) (\<lambda>inner'.
         bindE (py_add1 request_id) (\<lambda>next_id.
         bindE (py_setitem requests ''requests'' inner') (\<lambda>requests1.
         bindE (py_setitem requests1 ''next_id'' next_id) (\<lambda>requests2.
           Inr (request_id, save_json fs REQUESTS_FILE requests2)))))))))"

text \<open>
  The loop of \<^verbatim>\<open>get_pending_requests\<close>: every pending request, with the record of its
  user (the empty dictionary when the users have none) stored under \<^verbatim>\<open>"users"\<close>.
\<close>

fun pending_loop :: "json \<Rightarrow> json list \<Rightarrow> error + json list" where
  "pending_loop users [] = Inr []"
| "pending_loop users (request_data # rest) =
     bindE (py_get request_data ''status'' JNull) (\<lambda>status.
       if py_eq_str status ''pending'' then
         bindE (py_getitem request_data ''user_id'') (\<lambda>user_id.
         bindE (case py_str user_id of
                  Some key \<Rightarrow> py_get users key (JObj [])
                | None \<Rightarrow> Inl Unsupported) (\<lambda>user_info.
         bindE (py_setitem request_data ''users'' user_info) (\<lambda>request_data'.
         bindE (pending_loop users rest) (\<lambda>all_pending.
           Inr (request_data' # all_pending)))))
       else pending_loop users rest)"

definition get_pending_requests_io :: "int \<Rightarrow> int \<Rightarrow> json list io" where
  "get_pending_requests_io limit offset =
     bind_io (load_json_io REQUESTS_FILE) (\<lambda>requests.
     bind_io (load_json_io USERS_FILE) (\<lambda>users.
       lift_io
         (bindE (py_getitem requests ''requests'') (\<lambda>inner.
          bindE (py_values inner) (\<lambda>vals.
          bindE (pending_loop users vals) (\<lambda>all_pending.
          bindE (sort_by True (\<lambda>x. py_get x ''request_id'' (JInt 0)) all_pending) (\<lambda>sorted.
            let start_index = offset; end_index = offset + limit
            in Inr (py_slice sorted start_index end_index))))))))"

definition get_pending_requests :: "fs \<Rightarrow> int \<Rightarrow> int \<Rightarrow> error + json list" where
  "get_pending_requests fs limit offset = fst (get_pending_requests_io limit offset fs)"

fun count_loop :: "json list \<Rightarrow> int \<Rightarrow> error + int" where
  "count_loop [] count = Inr count"
| "count_loop (request_data # rest) count =
     bindE (py_get request_data ''status'' JNull) (\<lambda>status.
       if py_eq_str status ''pending'' then count_loop rest (count + 1)
       else count_loop rest count)"

definition get_total_pending_requests_count_io :: "int io" where
  "get_total_pending_requests_count_io =
     bind_io (load_json_io REQUESTS_FILE) (\<lambda>requests.
       lift_io
         (bindE (py_getitem requests ''requests'') (\<lambda>inner.
          bindE (py_values inner) (\<lambda>vals. count_loop vals 0))))"

definition get_total_pending_requests_count :: "fs \<Rightarrow> error + int" where
  "get_total_pending_requests_count fs = fst (get_total_pending_requests_count_io fs)"

definition update_request_status :: "fs \<Rightarrow> string \<Rightarrow> int \<Rightarrow> string \<Rightarrow> (error + json) \<times> fs" where
  "update_request_status fs now request_id status =
     (let requests = load_json fs REQUESTS_FILE; request_id_str = str_int request_id in
      finish fs
        (bindE (py_getitem requests ''requests'') (\<lambda>inner.
         bindE (py_contains inner request_id_str) (\<lambda>present.
           if present then
             bindE (py_getitem inner request_id_str) (\<lambda>request.
             bindE (py_setitem request ''status'' (JStr status)) (\<lambda>request1.
             bindE (py_setitem request1 ''updated_at'' (JStr now)) (\<lambda>request2.
             bindE (py_setitem inner request_id_str request2) (\<lambda>inner'.
             bindE (py_setitem requests ''requests'' inner') (\<lambda>requests'.
               Inr (request2, save_json fs REQUESTS_FILE requests'))))))
           else Inr (JNull, fs)))))"

section \<open>The store as a transition system\<close>

text \<open>
  One constructor per function of \<^verbatim>\<open>database.py\<close>. \<open>perform\<close> runs a call at the time
  \<open>now\<close>, with the case mappings \<open>lower\<close> and \<open>upper\<close>, and gives what it returns or
  raises, and the files afterwards.
\<close>

datatype call =
    InitializeDatabase
  | UserExists int
  | AddUserIfNotExists int string "string option"
  | GetUserRole int
  | AddAdmin int string string "string option"
  | GetAdminInfo int
  | RemoveAdmin string
  | GetAllAdmins
  | AddMovie json
  | GetMovieDetails int
  | SearchMovies string int
  | GetMoviesByFirstLetter string int
  | GetMoviesByCategory string int int
  | DeleteMovie int
  | IncrementDownloadCount int
  | AddChannel string string string
  | RemoveChannel string
  | GetChannelInfo string
  | GetAllChannels
  | AddMovieRequest int string
  | GetPendingRequests int int
  | GetTotalPendingRequestsCount
  | UpdateRequestStatus int string
  | GetMoviesByUploader int int

datatype retval = RNone | RBool bool | RInt int | RStr string | RJson json | RList "json list"

fun perform ::
  "(string \<Rightarrow> string) \<Rightarrow> (string \<Rightarrow> string) \<Rightarrow> string \<Rightarrow> call \<Rightarrow> fs
     \<Rightarrow> (error + retval) \<times> fs" where
  "perform lower upper now InitializeDatabase fs = (Inr RNone, initialize_database fs)"
| "perform lower upper now (UserExists user_id) fs =
     apfst (map_sum id RBool) (user_exists_io user_id fs)"
| "perform lower upper now (AddUserIfNotExists user_id first_name username) fs =
     apfst (map_sum id RBool) (add_user_if_not_exists fs now user_id first_name username)"
| "perform lower upper now (GetUserRole user_id) fs =
     apfst (map_sum id RStr) (get_user_role_io user_id fs)"
| "perform lower upper now (AddAdmin admin_id short_name first_name username) fs =
     apfst (map_sum id RBool) (add_admin fs now admin_id short_name first_name username)"
| "perform lower upper now (GetAdminInfo admin_id) fs =
     apfst (map_sum id RJson) (get_admin_info_io admin_id fs)"
| "perform lower upper now (RemoveAdmin identifier) fs =
     apfst (map_sum id RBool) (remove_admin fs identifier)"
| "perform lower upper now GetAllAdmins fs = apfst (map_sum id RList) (get_all_admins_io fs)"
| "perform lower upper now (AddMovie movie_data) fs =
     apfst (map_sum id RJson) (add_movie fs now movie_data)"
| "perform lower upper now (GetMovieDetails movie_id) fs =
     apfst (map_sum id RJson) (get_movie_details_io movie_id fs)"
| "perform lower upper now (SearchMovies query limit) fs =
     apfst (map_sum id RList) (search_movies_io lower query limit fs)"
| "perform lower upper now (GetMoviesByFirstLetter letter limit) fs =
     apfst (map_sum id RList) (get_movies_by_first_letter_io upper letter limit fs)"
| "perform lower upper now (GetMoviesByCategory category limit offset) fs =
     apfst (map_sum id RList) (get_movies_by_category_io lower category limit offset fs)"
| "perform lower upper now (DeleteMovie movie_id) fs =
     apfst (map_sum id RBool) (delete_movie fs movie_id)"
| "perform lower upper now (IncrementDownloadCount movie_id) fs =
     apfst (map_sum id (\<lambda>_. RNone)) (increment_download_count fs movie_id)"
| "perform lower upper now (AddChannel channel_id channel_name short_name) fs =
     apfst (map_sum id RBool) (add_channel fs now channel_id channel_name short_name)"
| "perform lower upper now (RemoveChannel identifier) fs =
     apfst (map_sum id RBool) (remove_channel fs identifier)"
| "perform lower upper now (GetChannelInfo channel_id) fs =
     apfst (map_sum id RJson) (get_channel_info_io channel_id fs)"
| "perform lower upper now GetAllChannels fs = apfst (map_sum id RList) (get_all_channels_io fs)"
| "perform lower upper now (AddMovieRequest user_id movie_name) fs =
     apfst (map_sum id RJson) (add_movie_request fs now user_id movie_name)"
| "perform lower upper now (GetPendingRequests limit offset) fs =
     apfst (map_sum id RList) (get_pending_requests_io limit offset fs)"
| "perform lower upper now GetTotalPendingRequestsCount fs =
     apfst (map_sum id RInt) (get_total_pending_requests_count_io fs)"
| "perform lower upper now (UpdateRequestStatus request_id status) fs =
     apfst (map_sum id RJson) (update_request_status fs now request_id status)"
| "perform lower upper now (GetMoviesByUploader admin_id limit) fs =
     apfst (map_sum id RList) (get_movies_by_uploader_io admin_id limit fs)"

text \<open>The calls whose function has no \<^verbatim>\<open>save_json\<close> in its body.\<close>

fun is_query :: "call \<Rightarrow> bool" where
  "is_query (UserExists user_id) = True"
| "is_query (GetUserRole user_id) = True"
| "is_query (GetAdminInfo admin_id) = True"
| "is_query GetAllAdmins = True"
| "is_query (GetMovieDetails movie_id) = True"
| "is_query (SearchMovies query limit) = True"
| "is_query (GetMoviesByFirstLetter letter limit) = True"
| "is_query (GetMoviesByCategory category limit offset) = True"
| "is_query (GetChannelInfo channel_id) = True"
| "is_query GetAllChannels = True"
| "is_query (GetPendingRequests limit offset) = True"
| "is_query GetTotalPendingRequestsCount = True"
| "is_query (GetMoviesByUploader admin_id limit) = True"
| "is_query _ = False"

section \<open>Well-formed records\<close>

text \<open>
  A movie record as the store's callers write it: a dictionary whose title, if it has one,
  is a string, and whose categories, if it has any, are a list. \<open>movie_title\<close> and
  \<open>movie_categories\<close> read the two fields, with the defaults of the code (the empty string,
  the empty list).
\<close>

definition movie_title :: "json \<Rightarrow> string" where
  "movie_title m =
     (case m of
        JObj kvs \<Rightarrow> (case map_of kvs ''title'' of Some (JStr t) \<Rightarrow> t | _ \<Rightarrow> [])
      | _ \<Rightarrow> [])"

definition movie_categories :: "json \<Rightarrow> json list" where
  "movie_categories m =
     (case m of
        JObj kvs \<Rightarrow> (case map_of kvs ''categories'' of Some (JList cs) \<Rightarrow> cs | _ \<Rightarrow> [])
      | _ \<Rightarrow> [])"

definition wf_movie :: "json \<Rightarrow> bool" where
  "wf_movie m =
     (case m of
        JObj kvs \<Rightarrow>
          (case map_of kvs ''title'' of None \<Rightarrow> True | Some (JStr t) \<Rightarrow> True | _ \<Rightarrow> False)
          \<and> (case map_of kvs ''categories'' of
                None \<Rightarrow> True | Some (JList cs) \<Rightarrow> True | _ \<Rightarrow> False)
      | _ \<Rightarrow> False)"

text \<open>
  A request record as \<^verbatim>\<open>add_movie_request\<close> writes it: a dictionary whose request
  identifier, if it has one, and whose user identifier are integers. \<open>request_id_of\<close>,
  \<open>request_user\<close> and \<open>is_pending\<close> read its fields; \<open>with_user\<close> is the record with the
  record of its user, or the empty dictionary when the users have none, under
  \<^verbatim>\<open>"users"\<close>.
\<close>

definition request_id_of :: "json \<Rightarrow> int" where
  "request_id_of r =
     (case r of
        JObj kvs \<Rightarrow> (case map_of kvs ''request_id'' of Some (JInt i) \<Rightarrow> i | _ \<Rightarrow> 0)
      | _ \<Rightarrow> 0)"

definition request_user :: "json \<Rightarrow> int" where
  "request_user r =
     (case r of
        JObj kvs \<Rightarrow> (case map_of kvs ''user_id'' of Some (JInt u) \<Rightarrow> u | _ \<Rightarrow> 0)
      | _ \<Rightarrow> 0)"

definition is_pending :: "json \<Rightarrow> bool" where
  "is_pending r =
     (case r of JObj kvs \<Rightarrow> map_of kvs ''status'' = Some (JStr ''pending'') | _ \<Rightarrow> False)"


definition with_user :: "(string \<times> json) list \<Rightarrow> json \<Rightarrow> json" where
  "with_user users r =
     (case r of
        JObj kvs \<Rightarrow>
          JObj (dict_set ''users''
                  (case map_of users (str_int (request_user r)) of
                     None \<Rightarrow> JObj [] | Some u \<Rightarrow> u)
                  kvs)
      | _ \<Rightarrow> r)"

section \<open>Counters and keys\<close>

text \<open>
  The movies and the requests documents hold a counter under \<^verbatim>\<open>"next_id"\<close> and the records
  under \<^verbatim>\<open>"movies"\<close> or \<^verbatim>\<open>"requests"\<close>, keyed by the decimal numeral of the id they were
  given. \<open>collection_of\<close> reads the counter and the records of such a document, and
  \<open>next_id_of\<close> the counter alone.

  The counter exceeds the keys when every key that reads as a number reads as a number
  below the counter. How a key is read as a number is the parameter \<open>num\<close> (\<open>None\<close> for a key
  that is not a number); \<open>int_of_key\<close> is the reading that takes the decimal numerals as
  Python's \<^verbatim>\<open>str\<close> writes them, and no other key.
\<close>

definition decode :: "string \<Rightarrow> nat" where
  "decode ds = foldl (\<lambda>a c. 10 * a + (of_char c - 48)) 0 ds"

definition int_of_key :: "string \<Rightarrow> int option" where
  "int_of_key k =
     (let i = (case k of
                 [] \<Rightarrow> 0
               | c # cs \<Rightarrow> if c = CHR ''-'' then - int (decode cs) else int (decode k))
      in if str_int i = k then Some i else None)"

definition collection_of :: "content \<Rightarrow> string \<Rightarrow> (int \<times> (string \<times> json) list) option" where
  "collection_of c name =
     (case c of
        Doc (JObj kvs) \<Rightarrow>
          (case (map_of kvs ''next_id'', map_of kvs name) of
             (Some (JInt n), Some (JObj items)) \<Rightarrow> Some (n, items)
           | _ \<Rightarrow> None)
      | _ \<Rightarrow> None)"

definition keys_below :: "(string \<Rightarrow> int option) \<Rightarrow> int \<Rightarrow> (string \<times> json) list \<Rightarrow> bool" where
  "keys_below num n items =
     list_all (\<lambda>k. case num k of None \<Rightarrow> True | Some i \<Rightarrow> i < n) (map fst items)"

definition counter_exceeds_keys :: "(string \<Rightarrow> int option) \<Rightarrow> content \<Rightarrow> string \<Rightarrow> bool" where
  "counter_exceeds_keys num c name =
     (case collection_of c name of
        None \<Rightarrow> False
      | Some (n, items) \<Rightarrow> keys_below num n items)"

definition next_id_of :: "content \<Rightarrow> int option" where
  "next_id_of c =
     (case c of
        Doc (JObj kvs) \<Rightarrow> (case map_of kvs ''next_id'' of Some (JInt n) \<Rightarrow> Some n | _ \<Rightarrow> None)
      | _ \<Rightarrow> None)"

section \<open>Example states\<close>

text \<open>A store none of whose files exists, and one whose files all hold text that is not JSON.\<close>

definition no_files :: fs where
  "no_files = (\<lambda>file_path. Absent)"

definition broken_files :: fs where
  "broken_files = (\<lambda>file_path. Malformed)"

text \<open>A movies document with one movie, uploaded by the admin 5.\<close>

definition one_movie_fs :: fs where
  "one_movie_fs = no_files(MOVIES_FILE := Doc (JObj
     [(''next_id'', JInt 2),
      (''movies'', JObj
         [(''1'', JObj [(''title'', JStr ''Dune''), (''added_by'', JInt 5), (''movie_id'', JInt 1),
                        (''added_at'', JStr ''2024-01-01T00:00:00''),
                        (''download_count'', JInt 0)])])]))"

text \<open>An admins document in which the owner's identity is a key as well.\<close>

definition owner_admin_fs :: fs where
  "owner_admin_fs = no_files(ADMINS_FILE := Doc (JObj
     [(''5379553841'', JObj [(''user_id'', JInt 5379553841), (''short_name'', JStr ''boss'')]),
      (''42'', JObj [(''user_id'', JInt 42), (''short_name'', JStr ''ann'')])]))"

text \<open>
  Two pending requests and one fulfilled; the user 42 of the first is known, the user 7 of
  the second is not.
\<close>

definition inception_request :: json where
  "inception_request =
     JObj [(''request_id'', JInt 1), (''user_id'', JInt 42), (''movie_name'', JStr ''Inception''),
           (''status'', JStr ''pending'')]"

definition dune_request :: json where
  "dune_request =
     JObj [(''request_id'', JInt 2), (''user_id'', JInt 7), (''movie_name'', JStr ''Dune''),
           (''status'', JStr ''pending'')]"

definition heat_request :: json where
  "heat_request =
     JObj [(''request_id'', JInt 3), (''user_id'', JInt 42), (''movie_name'', JStr ''Heat''),
           (''status'', JStr ''fulfilled'')]"

definition ann :: json where
  "ann = JObj [(''user_id'', JInt 42), (''first_name'', JStr ''Ann'')]"

definition two_requests_fs :: fs where
  "two_requests_fs = no_files
     (REQUESTS_FILE := Doc (JObj
        [(''next_id'', JInt 4),
         (''requests'', JObj
            [(''1'', inception_request), (''2'', dune_request), (''3'', heat_request)])]),
      USERS_FILE := Doc (JObj [(''42'', ann)]))"

text \<open>The movies document above after one more movie has been added.\<close>

definition two_movies_fs :: fs where
  "two_movies_fs = no_files(MOVIES_FILE := Doc (JObj
     [(''next_id'', JInt 3),
      (''movies'', JObj
         [(''1'', JObj [(''title'', JStr ''Dune''), (''added_by'', JInt 5), (''movie_id'', JInt 1),
                        (''added_at'', JStr ''2024-01-01T00:00:00''),
                        (''download_count'', JInt 0)]),
          (''2'', JObj [(''title'', JStr ''Heat''), (''added_by'', JInt 5), (''movie_id'', JInt 2),
                        (''added_at'', JStr ''2024-01-02T00:00:00''),
                        (''download_count'', JInt 0)])])]))"

text \<open>Three admins, the first two with the same short name.\<close>

definition bob1 :: json where
  "bob1 = JObj [(''user_id'', JInt 11), (''short_name'', JStr ''bob'')]"

definition bob2 :: json where
  "bob2 = JObj [(''user_id'', JInt 12), (''short_name'', JStr ''bob'')]"

definition carl :: json where
  "carl = JObj [(''user_id'', JInt 13), (''short_name'', JStr ''carl'')]"

definition three_admins_fs :: fs where
  "three_admins_fs =
     no_files(ADMINS_FILE := Doc (JObj [(''11'', bob1), (''12'', bob2), (''13'', carl)]))"

text \<open>
  Four movies, three of them in the category Action, added in the order Zeta, Alpha, beta,
  Mango.
\<close>

definition zeta :: json where
  "zeta = JObj [(''title'', JStr ''Zeta''), (''categories'', JList [JStr ''Action''])]"

definition alpha :: json where
  "alpha = JObj [(''title'', JStr ''Alpha''), (''categories'', JList [JStr ''Action''])]"

definition mango :: json where
  "mango = JObj [(''title'', JStr ''Mango''), (''categories'', JList [JStr ''Action'', JStr ''Comedy''])]"

definition drama :: json where
  "drama = JObj [(''title'', JStr ''beta''), (''categories'', JList [JStr ''Drama''])]"

definition four_movies_fs :: fs where
  "four_movies_fs = no_files(MOVIES_FILE := Doc (JObj
     [(''next_id'', JInt 5),
      (''movies'', JObj [(''1'', zeta), (''2'', alpha), (''3'', drama), (''4'', mango)])]))"

section \<open>Basic facts\<close>

declare digits.simps [simp del]

lemma bindE_simps:
  "bindE (Inl e) f = Inl e" "bindE (Inr x) f = f x"
  by (simp_all add: bindE_def)

lemma io_simps:
  "load_json_io file_path fs = (Inr (load_json fs file_path), fs)"
  "lift_io m fs = (m, fs)"
  "bind_io p f fs = (case p fs of (Inl e, fs') \<Rightarrow> (Inl e, fs') | (Inr x, fs') \<Rightarrow> f x fs')"
  by (simp_all add: load_json_io_def lift_io_def bind_io_def)

text \<open>What each function without \<^verbatim>\<open>save_json\<close> returns, from the documents it loads.\<close>

lemma user_exists_eq:
  "user_exists fs user_id =
     (let users = load_json fs USERS_FILE in py_contains users (str_int user_id))"
  by (simp add: user_exists_def user_exists_io_def io_simps)

lemma get_user_role_eq:
  "get_user_role fs user_id =
     (if user_id = OWNER_ID then Inr ''owner''
      else
        let admins = load_json fs ADMINS_FILE in
        bindE (py_contains admins (str_int user_id)) (\<lambda>is_admin.
          if is_admin then Inr ''admin'' else Inr ''user''))"
  by (simp add: get_user_role_def get_user_role_io_def io_simps)

lemma get_admin_info_eq:
  "get_admin_info fs admin_id =
     (let admins = load_json fs ADMINS_FILE in py_get admins (str_int admin_id) JNull)"
  by (simp add: get_admin_info_def get_admin_info_io_def io_simps)

lemma get_all_admins_eq:
  "get_all_admins fs = (let admins = load_json fs ADMINS_FILE in py_values admins)"
  by (simp add: get_all_admins_def get_all_admins_io_def io_simps)

lemma get_movie_details_eq:
  "get_movie_details fs movie_id =
     (let movies = load_json fs MOVIES_FILE in
      bindE (py_getitem movies ''movies'') (\<lambda>inner. py_get inner (str_int movie_id) JNull))"
  by (simp add: get_movie_details_def get_movie_details_io_def io_simps)

lemma search_movies_eq:
  "search_movies lower fs query limit =
     (let movies = load_json fs MOVIES_FILE; query_lower = lower query in
      bindE (py_getitem movies ''movies'') (\<lambda>inner.
      bindE (py_values inner) (\<lambda>vals. search_loop lower query_lower limit vals [])))"
  by (simp add: search_movies_def search_movies_io_def io_simps)

lemma get_movies_by_first_letter_eq:
  "get_movies_by_first_letter upper fs letter limit =
     (let movies = load_json fs MOVIES_FILE; letter_upper = upper letter in
      bindE (py_getitem movies ''movies'') (\<lambda>inner.
      bindE (py_values inner) (\<lambda>vals. first_letter_loop upper letter_upper limit vals [])))"
  by (simp add: get_movies_by_first_letter_def get_movies_by_first_letter_io_def io_simps)

lemma get_movies_by_category_eq:
  "get_movies_by_category lower fs category limit offset =
     (let movies = load_json fs MOVIES_FILE in
      bindE (if category = ALL_CATEGORY
             then bindE (py_getitem movies ''movies'') py_values
             else bindE (py_getitem movies ''movies'') (\<lambda>inner.
                  bindE (py_values inner) (category_loop category))) (\<lambda>all_matching.
      bindE (sort_by False (title_key lower) all_matching) (\<lambda>sorted.
        let start_index = offset; end_index = offset + limit
        in Inr (py_slice sorted start_index end_index))))"
  by (simp add: get_movies_by_category_def get_movies_by_category_io_def io_simps)

lemma get_movies_by_uploader_eq:
  "get_movies_by_uploader fs admin_id limit =
     (let movies = load_json fs MOVIES_FILE in
      bindE (py_values movies) (\<lambda>vals.
      bindE (map_res (added_by_is admin_id) vals) (\<lambda>flags.
      let admin_movies = map snd (filter fst (zip flags vals)) in
      bindE (sort_by True (\<lambda>x. py_get x ''added_at'' (JStr [])) admin_movies) (\<lambda>sorted.
        Inr (py_slice sorted 0 limit)))))"
  by (simp add: get_movies_by_uploader_def get_movies_by_uploader_io_def io_simps)

lemma get_channel_info_eq:
  "get_channel_info fs channel_id =
     (let channels = load_json fs CHANNELS_FILE in py_get channels channel_id JNull)"
  by (simp add: get_channel_info_def get_channel_info_io_def io_simps)

lemma get_all_channels_eq:
  "get_all_channels fs = (let channels = load_json fs CHANNELS_FILE in py_values channels)"
  by (simp add: get_all_channels_def get_all_channels_io_def io_simps)

lemma get_pending_requests_eq:
  "get_pending_requests fs limit offset =
     (let requests = load_json fs REQUESTS_FILE; users = load_json fs USERS_FILE in
      bindE (py_getitem requests ''requests'') (\<lambda>inner.
      bindE (py_values inner) (\<lambda>vals.
      bindE (pending_loop users vals) (\<lambda>all_pending.
      bindE (sort_by True (\<lambda>x. py_get x ''request_id'' (JInt 0)) all_pending) (\<lambda>sorted.
        let start_index = offset; end_index = offset + limit
        in Inr (py_slice sorted start_index end_index))))))"
  by (simp add: get_pending_requests_def get_pending_requests_io_def io_simps)

lemma get_total_pending_requests_count_eq:
  "get_total_pending_requests_count fs =
     (let requests = load_json fs REQUESTS_FILE in
      bindE (py_getitem requests ''requests'') (\<lambda>inner.
      bindE (py_values inner) (\<lambda>vals. count_loop vals 0)))"
  by (simp add: get_total_pending_requests_count_def get_total_pending_requests_count_io_def
      io_simps)

lemma digits_small: "n < 10 \<Longrightarrow> digits n = [''0123456789'' ! n]"
  by (simp add: digits.simps)

lemma digits_big:
  "\<not> n < 10 \<Longrightarrow> digits n = digits (n div 10) @ [''0123456789'' ! (n mod 10)]"
  by (subst digits.simps) simp

lemmas eval_str = str_int_def digits_small digits_big

lemma map_of_dict_set: "map_of (dict_set k v kvs) = (map_of kvs)(k \<mapsto> v)"
  by (induction kvs) (auto simp: fun_eq_iff)

lemma keys_dict_set: "fst ` set (dict_set k v kvs) = insert k (fst ` set kvs)"
proof -
  have "dom (map_of (dict_set k v kvs)) = insert k (dom (map_of kvs))"
    by (simp add: map_of_dict_set)
  then show ?thesis by (simp add: dom_map_of_conv_image_fst)
qed

lemma dict_del_distinct:
  assumes "distinct (map fst (pre @ (k, v) # post))"
  shows "dict_del k (pre @ (k, v) # post) = pre @ post"
proof -
  have "filter (\<lambda>p. fst p \<noteq> k) pre = pre" "filter (\<lambda>p. fst p \<noteq> k) post = post"
    using assms by (auto simp: filter_id_conv)
  then show ?thesis by (simp add: dict_del_def)
qed

section \<open>Queries on a missing or unreadable document\<close>

text \<open>
  Claim C1 says that no query raises, whatever the state of the files, a missing or
  unreadable file counting as an empty collection. \<^verbatim>\<open>load_json\<close> does return the empty
  dictionary for such a file, but the queries on movies and requests then index it with
  \<^verbatim>\<open>["movies"]\<close> or \<^verbatim>\<open>["requests"]\<close>: with the movies and requests files missing, or
  holding text that is not JSON, each of them raises \<^verbatim>\<open>KeyError\<close>.
\<close>

theorem queries_raise_on_missing_document:
  "get_movie_details no_files 1 = Inl KeyError
   \<and> get_movie_details broken_files 1 = Inl KeyError
   \<and> search_movies lower no_files ''a'' 10 = Inl KeyError
   \<and> get_movies_by_first_letter upper no_files ''a'' 30 = Inl KeyError
   \<and> get_movies_by_category lower no_files ''Action'' 10 0 = Inl KeyError
   \<and> get_pending_requests no_files 10 0 = Inl KeyError
   \<and> get_total_pending_requests_count no_files = Inl KeyError"
  by (simp add: no_files_def broken_files_def get_movie_details_eq search_movies_eq
      get_movies_by_first_letter_eq get_movies_by_category_eq get_pending_requests_eq
      get_total_pending_requests_count_eq load_json_def bindE_simps ALL_CATEGORY_def)

section \<open>Movies of an uploader\<close>

text \<open>
  Claim C2 says that \<^verbatim>\<open>get_movies_by_uploader\<close> returns the movies added by the admin,
  newest first, cut to the limit. On a movies document with one movie added by the admin 5
  the function does not return that movie: it iterates the values of the whole document,
  the first of which is the integer under \<^verbatim>\<open>"next_id"\<close>, and raises \<^verbatim>\<open>AttributeError\<close>.
\<close>

theorem get_movies_by_uploader_raises:
  "get_movies_by_uploader one_movie_fs 5 30 = Inl AttributeError"
  by (simp add: one_movie_fs_def no_files_def get_movies_by_uploader_eq load_json_def
      bindE_simps added_by_is_def)

section \<open>Roles\<close>

text \<open>
  Claim C8: \<^verbatim>\<open>get_user_role\<close> answers \<^verbatim>\<open>owner\<close> for the configured owner whatever the admins
  file holds; for an admins document that is a dictionary (a missing or unreadable file
  loads as the empty one) it answers \<^verbatim>\<open>owner\<close> for the owner, else \<^verbatim>\<open>admin\<close> for a key of
  the dictionary, else \<^verbatim>\<open>user\<close>.
\<close>

theorem get_user_role_precedence:
  "get_user_role fs OWNER_ID = Inr ''owner'' \<and>
   (load_json fs ADMINS_FILE = JObj admins \<longrightarrow>
    get_user_role fs user_id =
      Inr (if user_id = OWNER_ID then ''owner''
           else if str_int user_id \<in> fst ` set admins then ''admin'' else ''user''))"
  by (simp add: get_user_role_eq bindE_simps)

theorem get_user_role_precedence_witness:
  "load_json owner_admin_fs ADMINS_FILE =
     JObj [(''5379553841'', JObj [(''user_id'', JInt 5379553841), (''short_name'', JStr ''boss'')]),
           (''42'', JObj [(''user_id'', JInt 42), (''short_name'', JStr ''ann'')])]
   \<and> get_user_role owner_admin_fs OWNER_ID = Inr ''owner''
   \<and> get_user_role owner_admin_fs 42 = Inr ''admin''
   \<and> get_user_role owner_admin_fs 7 = Inr ''user''"
  using
    get_user_role_precedence [of owner_admin_fs
      "[(''5379553841'', JObj [(''user_id'', JInt 5379553841), (''short_name'', JStr ''boss'')]),
        (''42'', JObj [(''user_id'', JInt 42), (''short_name'', JStr ''ann'')])]" 42]
    get_user_role_precedence [of owner_admin_fs
      "[(''5379553841'', JObj [(''user_id'', JInt 5379553841), (''short_name'', JStr ''boss'')]),
        (''42'', JObj [(''user_id'', JInt 42), (''short_name'', JStr ''ann'')])]" 7]
  by (simp add: owner_admin_fs_def no_files_def load_json_def OWNER_ID_def eval_str)

section \<open>Queries leave the files alone\<close>

text \<open>
  Loading a file and computing in memory leave the files as they are, and so does a
  program made of such steps.
\<close>

lemma load_json_io_files: "snd (load_json_io file_path fs) = fs"
  by (simp add: load_json_io_def)

lemma lift_io_files: "snd (lift_io m fs) = fs"
  by (simp add: lift_io_def)

lemma bind_io_files:
  assumes "snd (p fs) = fs" and "\<And>x. snd (f x fs) = fs"
  shows "snd (bind_io p f fs) = fs"
proof (cases "p fs")
  case (Pair r fs')
  with assms(1) have "fs' = fs" by simp
  with Pair assms(2) show ?thesis by (cases r) (simp_all add: bind_io_def)
qed

lemma user_exists_io_files: "snd (user_exists_io user_id fs) = fs"
  unfolding user_exists_io_def by (intro bind_io_files load_json_io_files lift_io_files)

lemma get_user_role_io_files: "snd (get_user_role_io user_id fs) = fs"
proof (cases "user_id = OWNER_ID")
  case True
  then show ?thesis by (simp add: get_user_role_io_def lift_io_files)
next
  case False
  have "snd (bind_io (load_json_io ADMINS_FILE) (\<lambda>admins.
          lift_io
            (bindE (py_contains admins (str_int user_id)) (\<lambda>is_admin.
               if is_admin then Inr ''admin'' else Inr ''user''))) fs) = fs"
    by (intro bind_io_files load_json_io_files lift_io_files)
  with False show ?thesis by (simp add: get_user_role_io_def)
qed

lemma get_admin_info_io_files: "snd (get_admin_info_io admin_id fs) = fs"
  unfolding get_admin_info_io_def by (intro bind_io_files load_json_io_files lift_io_files)

lemma get_all_admins_io_files: "snd (get_all_admins_io fs) = fs"
  unfolding get_all_admins_io_def by (intro bind_io_files load_json_io_files lift_io_files)

lemma get_movie_details_io_files: "snd (get_movie_details_io movie_id fs) = fs"
  unfolding get_movie_details_io_def by (intro bind_io_files load_json_io_files lift_io_files)

lemma search_movies_io_files: "snd (search_movies_io lower query limit fs) = fs"
  unfolding search_movies_io_def by (intro bind_io_files load_json_io_files lift_io_files)

lemma get_movies_by_first_letter_io_files:
  "snd (get_movies_by_first_letter_io upper letter limit fs) = fs"
  unfolding get_movies_by_first_letter_io_def
  by (intro bind_io_files load_json_io_files lift_io_files)

lemma get_movies_by_category_io_files:
  "snd (get_movies_by_category_io lower category limit offset fs) = fs"
  unfolding get_movies_by_category_io_def
  by (intro bind_io_files load_json_io_files lift_io_files)

lemma get_movies_by_uploader_io_files: "snd (get_movies_by_uploader_io admin_id limit fs) = fs"
  unfolding get_movies_by_uploader_io_def
  by (intro bind_io_files load_json_io_files lift_io_files)

lemma get_channel_info_io_files: "snd (get_channel_info_io channel_id fs) = fs"
  unfolding get_channel_info_io_def by (intro bind_io_files load_json_io_files lift_io_files)

lemma get_all_channels_io_files: "snd (get_all_channels_io fs) = fs"
  unfolding get_all_channels_io_def by (intro bind_io_files load_json_io_files lift_io_files)

lemma get_pending_requests_io_files: "snd (get_pending_requests_io limit offset fs) = fs"
  unfolding get_pending_requests_io_def
  by (intro bind_io_files load_json_io_files lift_io_files)

lemma get_total_pending_requests_count_io_files:
  "snd (get_total_pending_requests_count_io fs) = fs"
  unfolding get_total_pending_requests_count_io_def
  by (intro bind_io_files load_json_io_files lift_io_files)

lemmas query_io_files =
  user_exists_io_files get_user_role_io_files get_admin_info_io_files get_all_admins_io_files
  get_movie_details_io_files search_movies_io_files get_movies_by_first_letter_io_files
  get_movies_by_category_io_files get_movies_by_uploader_io_files get_channel_info_io_files
  get_all_channels_io_files get_pending_requests_io_files
  get_total_pending_requests_count_io_files

lemma query_files: "is_query c \<Longrightarrow> snd (perform lower upper now c fs) = fs"
  by (cases c) (simp_all add: query_io_files)

text \<open>
  The records that \<^verbatim>\<open>get_pending_requests\<close> returns: each is a request of the requests
  document with an entry set under \<^verbatim>\<open>"users"\<close>.
\<close>

lemma pending_loop_attaches:
  "pending_loop users vals = Inr out \<Longrightarrow>
   \<forall>r\<in>set out. \<exists>q\<in>set vals. \<exists>u. py_setitem q ''users'' u = Inr r"
proof (induction vals arbitrary: out)
  case Nil
  then show ?case by simp
next
  case (Cons q vals)
  show ?case
  proof (cases "\<exists>status. py_get q ''status'' JNull = Inr status \<and> py_eq_str status ''pending''")
    case False
    with Cons.prems have "pending_loop users vals = Inr out"
      by (cases "py_get q ''status'' JNull") (auto simp: bindE_simps)
    from Cons.IH [OF this] show ?thesis by auto
  next
    case True
    with Cons.prems obtain user_id user_info q' rest where
      q': "py_setitem q ''users'' user_info = Inr q'"
      and rest: "pending_loop users vals = Inr rest"
      and out: "out = q' # rest"
      by (auto simp: bindE_def split: sum.splits)
    from Cons.IH [OF rest] q' out show ?thesis by auto
  qed
qed

lemma map_res_length: "map_res f xs = Inr ys \<Longrightarrow> length ys = length xs"
  by (induction xs arbitrary: ys) (auto simp: bindE_def split: sum.splits)

lemma py_sort_set: "py_sort r kxs = Inr ys \<Longrightarrow> set ys = snd ` set kxs"
  by (force simp: py_sort_def stable_sort_def split: if_splits)

lemma sort_by_set:
  assumes "sort_by r key xs = Inr ys"
  shows "set ys = set xs"
proof -
  from assms obtain ks where ks: "map_res key xs = Inr ks" and ys: "py_sort r (zip ks xs) = Inr ys"
    by (auto simp: sort_by_def bindE_def split: sum.splits)
  from map_res_length [OF ks] have "map snd (zip ks xs) = xs" by simp
  then have "snd ` set (zip ks xs) = set xs" by (metis set_map)
  with py_sort_set [OF ys] show ?thesis by simp
qed

lemma py_slice_subset: "set (py_slice xs start stop) \<subseteq> set xs"
proof -
  have "set (take n (drop k xs)) \<subseteq> set xs" for n k
    using set_take_subset [of n "drop k xs"] set_drop_subset [of k xs] by blast
  then show ?thesis by (simp add: py_slice_def Let_def)
qed

lemma get_pending_requests_io_result:
  assumes "get_pending_requests_io limit offset fs = (Inr rs, fs')"
  shows "\<exists>inner vals.
      py_getitem (load_json fs REQUESTS_FILE) ''requests'' = Inr inner
      \<and> py_values inner = Inr vals
      \<and> (\<forall>r\<in>set rs. \<exists>q\<in>set vals. \<exists>u. py_setitem q ''users'' u = Inr r)"
proof -
  from assms obtain inner vals all_pending sorted where
    inner: "py_getitem (load_json fs REQUESTS_FILE) ''requests'' = Inr inner"
    and vals: "py_values inner = Inr vals"
    and loop: "pending_loop (load_json fs USERS_FILE) vals = Inr all_pending"
    and sorted: "sort_by True (\<lambda>x. py_get x ''request_id'' (JInt 0)) all_pending = Inr sorted"
    and rs: "rs = py_slice sorted offset (offset + limit)"
    by (auto simp: get_pending_requests_io_def io_simps bindE_def Let_def split: sum.splits)
  have "set rs \<subseteq> set all_pending"
    using py_slice_subset [of sorted offset "offset + limit"] sort_by_set [OF sorted] rs by simp
  with pending_loop_attaches [OF loop] have
    "\<forall>r\<in>set rs. \<exists>q\<in>set vals. \<exists>u. py_setitem q ''users'' u = Inr r"
    by blast
  with inner vals show ?thesis by blast
qed

text \<open>
  Claim C10: a query (a function of the store without \<^verbatim>\<open>save_json\<close>: \<^verbatim>\<open>user_exists\<close>,
  \<^verbatim>\<open>get_user_role\<close>, \<^verbatim>\<open>get_admin_info\<close>, \<^verbatim>\<open>get_all_admins\<close>, \<^verbatim>\<open>get_movie_details\<close>,
  \<^verbatim>\<open>search_movies\<close>, \<^verbatim>\<open>get_movies_by_first_letter\<close>, \<^verbatim>\<open>get_movies_by_category\<close>,
  \<^verbatim>\<open>get_channel_info\<close>, \<^verbatim>\<open>get_all_channels\<close>, \<^verbatim>\<open>get_pending_requests\<close>,
  \<^verbatim>\<open>get_total_pending_requests_count\<close>, \<^verbatim>\<open>get_movies_by_uploader\<close>) leaves every file as
  it was, whether it returns or raises. When \<^verbatim>\<open>get_pending_requests\<close> returns, every record
  it returns is a request \<open>q\<close> with an entry set under \<^verbatim>\<open>"users"\<close>, and the requests file
  after the call still holds \<open>q\<close> itself among the values of its \<^verbatim>\<open>"requests"\<close> entry: the
  entry under \<^verbatim>\<open>"users"\<close> is in the returned list only.
\<close>

theorem queries_leave_files_unchanged:
  "(is_query c \<longrightarrow> snd (perform lower upper now c fs) = fs)
   \<and> (get_pending_requests_io limit offset fs = (Inr rs, fs') \<longrightarrow>
        fs' = fs
        \<and> (\<exists>inner vals.
              py_getitem (load_json fs' REQUESTS_FILE) ''requests'' = Inr inner
              \<and> py_values inner = Inr vals
              \<and> (\<forall>r\<in>set rs. \<exists>q\<in>set vals. \<exists>u. py_setitem q ''users'' u = Inr r)))"
proof (intro conjI impI)
  assume "is_query c"
  then show "snd (perform lower upper now c fs) = fs" by (rule query_files)
next
  assume r: "get_pending_requests_io limit offset fs = (Inr rs, fs')"
  with get_pending_requests_io_files [of limit offset fs] show fs': "fs' = fs" by simp
  from get_pending_requests_io_result [OF r] fs'
  show "\<exists>inner vals.
      py_getitem (load_json fs' REQUESTS_FILE) ''requests'' = Inr inner
      \<and> py_values inner = Inr vals
      \<and> (\<forall>r\<in>set rs. \<exists>q\<in>set vals. \<exists>u. py_setitem q ''users'' u = Inr r)"
    by simp
qed

theorem queries_leave_files_unchanged_witness:
  "is_query (GetPendingRequests 10 0)
   \<and> get_pending_requests_io 10 0 two_requests_fs =
       (Inr [JObj [(''request_id'', JInt 2), (''user_id'', JInt 7), (''movie_name'', JStr ''Dune''),
                   (''status'', JStr ''pending''), (''users'', JObj [])],
             JObj [(''request_id'', JInt 1), (''user_id'', JInt 42),
                   (''movie_name'', JStr ''Inception''), (''status'', JStr ''pending''),
                   (''users'', JObj [(''user_id'', JInt 42), (''first_name'', JStr ''Ann'')])]],
        two_requests_fs)
   \<and> snd (perform ascii_lower ascii_upper ''2024-01-02T00:00:00'' (GetPendingRequests 10 0)
            two_requests_fs) = two_requests_fs
   \<and> py_getitem (load_json two_requests_fs REQUESTS_FILE) ''requests'' =
       Inr (JObj [(''1'', JObj [(''request_id'', JInt 1), (''user_id'', JInt 42),
                                (''movie_name'', JStr ''Inception''), (''status'', JStr ''pending'')]),
                  (''2'', JObj [(''request_id'', JInt 2), (''user_id'', JInt 7),
                                (''movie_name'', JStr ''Dune''), (''status'', JStr ''pending'')]),
                  (''3'', heat_request)])"
proof -
  have a: "get_pending_requests_io 10 0 two_requests_fs =
       (Inr [JObj [(''request_id'', JInt 2), (''user_id'', JInt 7), (''movie_name'', JStr ''Dune''),
                   (''status'', JStr ''pending''), (''users'', JObj [])],
             JObj [(''request_id'', JInt 1), (''user_id'', JInt 42),
                   (''movie_name'', JStr ''Inception''), (''status'', JStr ''pending''),
                   (''users'', JObj [(''user_id'', JInt 42), (''first_name'', JStr ''Ann'')])]],
        two_requests_fs)"
    by (simp add: get_pending_requests_io_def io_simps two_requests_fs_def inception_request_def
        dune_request_def heat_request_def ann_def no_files_def load_json_def bindE_simps
        py_eq_str_def eval_str sort_by_def py_sort_def stable_sort_def py_slice_def clip_def)
  have b: "py_getitem (load_json two_requests_fs REQUESTS_FILE) ''requests'' =
       Inr (JObj [(''1'', JObj [(''request_id'', JInt 1), (''user_id'', JInt 42),
                                (''movie_name'', JStr ''Inception''), (''status'', JStr ''pending'')]),
                  (''2'', JObj [(''request_id'', JInt 2), (''user_id'', JInt 7),
                                (''movie_name'', JStr ''Dune''), (''status'', JStr ''pending'')]),
                  (''3'', heat_request)])"
    by (simp add: two_requests_fs_def inception_request_def dune_request_def no_files_def
        load_json_def)
  show ?thesis
    using a b
      queries_leave_files_unchanged [of "GetPendingRequests 10 0" ascii_lower ascii_upper
        "''2024-01-02T00:00:00''" two_requests_fs 10 0
        "[JObj [(''request_id'', JInt 2), (''user_id'', JInt 7), (''movie_name'', JStr ''Dune''),
                (''status'', JStr ''pending''), (''users'', JObj [])],
          JObj [(''request_id'', JInt 1), (''user_id'', JInt 42),
                (''movie_name'', JStr ''Inception''), (''status'', JStr ''pending''),
                (''users'', JObj [(''user_id'', JInt 42), (''first_name'', JStr ''Ann'')])]]"
        two_requests_fs]
    by simp
qed

section \<open>Removing an admin or a channel\<close>

lemma find_short_name_first:
  "list_all is_dict (map snd pre) \<Longrightarrow>
   \<forall>q\<in>set pre. py_get (snd q) ''short_name'' JNull \<noteq> Inr (JStr ident) \<Longrightarrow>
   py_get v ''short_name'' JNull = Inr (JStr ident) \<Longrightarrow>
   find_short_name ident (pre @ (k, v) # post) = Inr (Some k)"
proof (induction pre)
  case Nil
  then show ?case by (simp add: bindE_simps py_eq_str_def)
next
  case (Cons q pre)
  obtain qk qv where q: "q = (qk, qv)" by (cases q)
  with Cons.prems obtain r where r: "qv = JObj r" by (cases qv) simp_all
  from Cons show ?case by (simp add: q r bindE_simps py_eq_str_def)
qed

lemma find_short_name_none:
  "list_all is_dict (map snd kvs) \<Longrightarrow>
   \<forall>q\<in>set kvs. py_get (snd q) ''short_name'' JNull \<noteq> Inr (JStr ident) \<Longrightarrow>
   find_short_name ident kvs = Inr None"
proof (induction kvs)
  case Nil
  then show ?case by simp
next
  case (Cons q kvs)
  obtain qk qv where q: "q = (qk, qv)" by (cases q)
  with Cons.prems obtain r where r: "qv = JObj r" by (cases qv) simp_all
  from Cons show ?case by (simp add: q r bindE_simps py_eq_str_def)
qed

lemma remove_by_key:
  assumes "load_json fs p = JObj kvs" "distinct (map fst kvs)" "kvs = pre @ (ident, v) # post"
  shows "remove_by_identifier fs p ident = (Inr True, fs(p := Doc (JObj (pre @ post))))"
  using assms dict_del_distinct [where pre = pre and k = ident and v = v and post = post]
  by (simp add: remove_by_identifier_def bindE_simps finish_def save_json_def)

lemma remove_by_short_name:
  assumes "load_json fs p = JObj kvs" "distinct (map fst kvs)" "list_all is_dict (map snd kvs)"
    "ident \<notin> fst ` set kvs" "kvs = pre @ (k, v) # post"
    "py_get v ''short_name'' JNull = Inr (JStr ident)"
    "\<forall>q\<in>set pre. py_get (snd q) ''short_name'' JNull \<noteq> Inr (JStr ident)"
  shows "remove_by_identifier fs p ident = (Inr True, fs(p := Doc (JObj (pre @ post))))"
proof -
  have "find_short_name ident kvs = Inr (Some k)"
    using assms
      find_short_name_first [where pre = pre and ident = ident and v = v and k = k and post = post]
    by simp
  moreover have "dict_del k kvs = pre @ post"
    using assms dict_del_distinct [where pre = pre and k = k and v = v and post = post] by simp
  moreover have "k \<in> fst ` set kvs" using assms by force
  ultimately show ?thesis using assms(1,4)
    by (simp add: remove_by_identifier_def bindE_simps finish_def save_json_def)
qed

lemma remove_no_match:
  assumes "load_json fs p = JObj kvs" "list_all is_dict (map snd kvs)"
    "ident \<notin> fst ` set kvs"
    "\<forall>q\<in>set kvs. py_get (snd q) ''short_name'' JNull \<noteq> Inr (JStr ident)"
  shows "remove_by_identifier fs p ident = (Inr False, fs)"
  using assms find_short_name_none [where kvs = kvs and ident = ident]
  by (simp add: remove_by_identifier_def bindE_simps finish_def)

text \<open>
  Claim C9, for \<open>rm\<close> either \<^verbatim>\<open>remove_admin\<close> on the admins file or \<^verbatim>\<open>remove_channel\<close> on
  the channels file, the file holding a dictionary \<open>kvs\<close> of records that are dictionaries.
  If the identifier is a key, the records being \<open>pre\<close>, that one and \<open>post\<close>, the call
  returns true and leaves \<open>pre\<close> and \<open>post\<close> in the file, unchanged and in order. If it is no
  key and \<open>(k, v)\<close> is the first record whose short name is the identifier (none in \<open>pre\<close>
  has it, whatever comes in \<open>post\<close>), the call returns true and leaves \<open>pre\<close> and \<open>post\<close>.
  If it is no key and no record has it as short name, the call returns false and the
  files are as before.
\<close>

theorem remove_by_identity_or_first_short_name:
  assumes "(rm = remove_admin \<and> p = ADMINS_FILE) \<or> (rm = remove_channel \<and> p = CHANNELS_FILE)"
    and "load_json fs p = JObj kvs"
    and "distinct (map fst kvs)"
    and "list_all is_dict (map snd kvs)"
  shows
    "(kvs = pre @ (ident, v) # post \<longrightarrow>
        rm fs ident = (Inr True, fs(p := Doc (JObj (pre @ post)))))
     \<and> (ident \<notin> fst ` set kvs \<and> kvs = pre @ (k, v) # post
         \<and> py_get v ''short_name'' JNull = Inr (JStr ident)
         \<and> (\<forall>q\<in>set pre. py_get (snd q) ''short_name'' JNull \<noteq> Inr (JStr ident)) \<longrightarrow>
        rm fs ident = (Inr True, fs(p := Doc (JObj (pre @ post)))))
     \<and> (ident \<notin> fst ` set kvs
         \<and> (\<forall>q\<in>set kvs. py_get (snd q) ''short_name'' JNull \<noteq> Inr (JStr ident)) \<longrightarrow>
        rm fs ident = (Inr False, fs))"
proof -
  have rm: "rm fs ident = remove_by_identifier fs p ident"
    using assms(1) by (auto simp: remove_admin_def remove_channel_def)
  show ?thesis
    unfolding rm
    using remove_by_key [OF assms(2,3)] remove_by_short_name [OF assms(2,3,4)]
      remove_no_match [OF assms(2,4)]
    by blast
qed

theorem remove_by_identity_or_first_short_name_witness:
  "load_json three_admins_fs ADMINS_FILE = JObj [(''11'', bob1), (''12'', bob2), (''13'', carl)]
   \<and> distinct (map fst [(''11'', bob1), (''12'', bob2), (''13'', carl)])
   \<and> list_all is_dict (map snd [(''11'', bob1), (''12'', bob2), (''13'', carl)])
   \<and> remove_admin three_admins_fs ''bob'' =
       (Inr True, three_admins_fs(ADMINS_FILE := Doc (JObj [(''12'', bob2), (''13'', carl)])))
   \<and> remove_admin three_admins_fs ''13'' =
       (Inr True, three_admins_fs(ADMINS_FILE := Doc (JObj [(''11'', bob1), (''12'', bob2)])))
   \<and> remove_admin three_admins_fs ''dave'' = (Inr False, three_admins_fs)"
proof -
  let ?kvs = "[(''11'', bob1), (''12'', bob2), (''13'', carl)]"
  have a: "(remove_admin = remove_admin \<and> ADMINS_FILE = ADMINS_FILE)
           \<or> (remove_admin = remove_channel \<and> ADMINS_FILE = CHANNELS_FILE)" by simp
  have b: "load_json three_admins_fs ADMINS_FILE = JObj ?kvs"
    by (simp add: three_admins_fs_def no_files_def load_json_def)
  have c: "distinct (map fst ?kvs)" by simp
  have d: "list_all is_dict (map snd ?kvs)" by (simp add: bob1_def bob2_def carl_def)
  note t = remove_by_identity_or_first_short_name [OF a b c d]
  have 1: "remove_admin three_admins_fs ''bob'' =
       (Inr True, three_admins_fs(ADMINS_FILE := Doc (JObj [(''12'', bob2), (''13'', carl)])))"
    using t [where ident = "''bob''" and pre = "[]" and k = "''11''" and v = bob1
        and post = "[(''12'', bob2), (''13'', carl)]"]
    by (simp add: bob1_def)
  have 2: "remove_admin three_admins_fs ''13'' =
       (Inr True, three_admins_fs(ADMINS_FILE := Doc (JObj [(''11'', bob1), (''12'', bob2)])))"
    using t [where ident = "''13''" and pre = "[(''11'', bob1), (''12'', bob2)]" and v = carl
        and post = "[]"]
    by simp
  have 3: "remove_admin three_admins_fs ''dave'' = (Inr False, three_admins_fs)"
    using t [where ident = "''dave''"]
    by (simp add: bob1_def bob2_def carl_def)
  show ?thesis using b c d 1 2 3 by blast
qed

section \<open>Adding a movie and reading it back\<close>

text \<open>
  Claim C7: when \<^verbatim>\<open>add_movie\<close> returns the identifier \<open>movie_id\<close>, the data was a dictionary
  \<open>d\<close>, and \<^verbatim>\<open>get_movie_details\<close> of that identifier on the files afterwards returns \<open>d\<close>
  with \<^verbatim>\<open>movie_id\<close> set to the identifier, \<^verbatim>\<open>added_at\<close> to the time and \<^verbatim>\<open>download_count\<close>
  to zero: every other key has the value it has in \<open>d\<close>.
\<close>

theorem add_movie_then_get_movie_details:
  assumes "add_movie fs now movie_data = (Inr (JInt movie_id), fs')"
  shows "\<exists>d r. movie_data = JObj d
     \<and> get_movie_details fs' movie_id = Inr (JObj r)
     \<and> r = dict_set ''download_count'' (JInt 0)
           (dict_set ''added_at'' (JStr now) (dict_set ''movie_id'' (JInt movie_id) d))
     \<and> map_of r = (map_of d)(''movie_id'' \<mapsto> JInt movie_id, ''added_at'' \<mapsto> JStr now,
                               ''download_count'' \<mapsto> JInt 0)"
proof -
  obtain d where d: "movie_data = JObj d"
    using assms
    by (cases movie_data) (auto simp: add_movie_def finish_def bindE_def Let_def split: sum.splits)
  obtain kvs where kvs: "load_json fs MOVIES_FILE = JObj kvs"
    using assms
    by (cases "load_json fs MOVIES_FILE")
      (auto simp: add_movie_def finish_def bindE_def Let_def split: sum.splits)
  have nid: "map_of kvs ''next_id'' = Some (JInt movie_id)"
    using assms
    by (auto simp: add_movie_def finish_def bindE_def Let_def kvs d
        split: sum.splits option.splits)
  obtain inner where inner: "map_of kvs ''movies'' = Some (JObj inner)"
    using assms nid
    by (auto simp: add_movie_def finish_def bindE_def Let_def kvs d
        split: sum.splits option.splits elim: py_setitem.elims)
  let ?r = "dict_set ''download_count'' (JInt 0)
           (dict_set ''added_at'' (JStr now) (dict_set ''movie_id'' (JInt movie_id) d))"
  have fs': "fs' = fs(MOVIES_FILE := Doc (JObj (dict_set ''next_id'' (JInt (movie_id + 1))
       (dict_set ''movies'' (JObj (dict_set (str_int movie_id) (JObj ?r) inner)) kvs))))"
    using assms by (simp add: add_movie_def finish_def bindE_simps kvs d nid inner save_json_def)
  have "get_movie_details fs' movie_id = Inr (JObj ?r)"
    by (simp add: fs' get_movie_details_eq load_json_def bindE_simps map_of_dict_set)
  then show ?thesis using d by (simp add: map_of_dict_set)
qed

theorem add_movie_then_get_movie_details_witness:
  "add_movie one_movie_fs ''2024-01-02T00:00:00''
       (JObj [(''title'', JStr ''Heat''), (''added_by'', JInt 5)]) =
     (Inr (JInt 2), two_movies_fs)
   \<and> get_movie_details two_movies_fs 2 =
       Inr (JObj [(''title'', JStr ''Heat''), (''added_by'', JInt 5), (''movie_id'', JInt 2),
                  (''added_at'', JStr ''2024-01-02T00:00:00''), (''download_count'', JInt 0)])"
proof -
  have a: "add_movie one_movie_fs ''2024-01-02T00:00:00''
       (JObj [(''title'', JStr ''Heat''), (''added_by'', JInt 5)]) =
     (Inr (JInt 2), two_movies_fs)"
    by (simp add: add_movie_def one_movie_fs_def two_movies_fs_def no_files_def load_json_def
        save_json_def finish_def bindE_simps eval_str)
  show ?thesis
    using a add_movie_then_get_movie_details [OF a] by simp
qed

section \<open>Movies of a category\<close>

lemma insort_key_map:
  "insort_key k (m x) (map m ys) = map m (insort_key (\<lambda>y. k (m y)) x ys)"
  by (induction ys) simp_all

lemma sort_key_map: "sort_key k (map m xs) = map m (sort_key (\<lambda>y. k (m y)) xs)"
  by (induction xs) (simp_all add: insort_key_map)

lemma stable_sort_map:
  "stable_sort r k (map m xs) = map m (stable_sort r (\<lambda>y. k (m y)) xs)"
  by (simp add: stable_sort_def sort_key_map rev_map)

lemma zip_map_self: "zip (map h xs) xs = map (\<lambda>x. (h x, x)) xs"
  by (induction xs) simp_all

lemma stable_sort_short: "length xs \<le> 1 \<Longrightarrow> stable_sort r k xs = xs"
  by (cases xs) (auto simp: stable_sort_def)

lemma map_res_total: "\<forall>x\<in>set xs. f x = Inr (g x) \<Longrightarrow> map_res f xs = Inr (map g xs)"
  by (induction xs) (simp_all add: bindE_simps)

lemma py_sort_str:
  "py_sort r (zip (map (\<lambda>x. JStr (h x)) xs) xs) = Inr (stable_sort r h xs)"
proof (cases "length xs \<le> 1")
  case True
  then show ?thesis by (simp add: py_sort_def zip_map_self stable_sort_short comp_def)
next
  case False
  have a: "list_all is_str (map fst (zip (map (\<lambda>x. JStr (h x)) xs) xs))"
    by (simp add: zip_map_self list_all_iff)
  have b: "\<not> list_all is_intlike (map fst (zip (map (\<lambda>x. JStr (h x)) xs) xs))"
    using False by (cases xs) (simp_all add: zip_map_self)
  have "map snd (stable_sort r (\<lambda>p. str_of (fst p)) (map (\<lambda>x. (JStr (h x), x)) xs))
        = stable_sort r h xs"
    by (simp add: stable_sort_map comp_def)
  with False a b show ?thesis by (simp add: py_sort_def zip_map_self)
qed


lemma title_key_wf:
  "wf_movie m \<Longrightarrow> title_key lower m = Inr (JStr (lower (movie_title m)))"
  by (auto simp: wf_movie_def title_key_def movie_title_def bindE_simps
      split: json.splits option.splits)

lemma sort_by_title:
  assumes "list_all wf_movie xs"
  shows "sort_by False (title_key lower) xs = Inr (sort_key (\<lambda>m. lower (movie_title m)) xs)"
proof -
  have "map_res (title_key lower) xs = Inr (map (\<lambda>m. JStr (lower (movie_title m))) xs)"
    using assms by (intro map_res_total) (simp add: list_all_iff title_key_wf)
  then show ?thesis
    by (simp add: sort_by_def bindE_simps py_sort_str stable_sort_def)
qed

lemma category_loop_wf:
  "list_all wf_movie xs \<Longrightarrow>
   category_loop category xs =
     Inr (filter (\<lambda>m. JStr category \<in> set (movie_categories m)) xs)"
proof (induction xs)
  case Nil
  then show ?case by simp
next
  case (Cons m xs)
  then obtain kvs where m: "m = JObj kvs" by (cases m) (simp_all add: wf_movie_def)
  have "bindE (py_get m ''categories'' (JList [])) py_iter = Inr (movie_categories m)"
    using Cons.prems
    by (auto simp: m wf_movie_def movie_categories_def bindE_simps
        split: option.splits json.splits)
  then have it: "bindE (py_get m ''categories'' (JList [])) (\<lambda>c. bindE (py_iter c) f) = f (movie_categories m)" for f
    by (cases "py_get m ''categories'' (JList [])") (auto simp: bindE_def split: sum.splits)
  show ?case using Cons
    by (simp add: it bindE_simps list_ex_iff py_eq_str_def) 
qed


lemma py_slice_nonneg:
  "0 \<le> offset \<Longrightarrow> 0 \<le> limit \<Longrightarrow>
   py_slice xs offset (offset + limit) = take (nat limit) (drop (nat offset) xs)"
proof -
  assume a: "0 \<le> offset" "0 \<le> limit"
  show ?thesis
  proof (cases "nat offset \<ge> length xs")
    case True
    then show ?thesis using a by (simp add: py_slice_def clip_def Let_def)
  next
    case False
    have "take (min (nat (offset + limit)) (length xs) - nat offset) (drop (nat offset) xs)
          = take (nat limit) (drop (nat offset) xs)"
    proof (cases "nat (offset + limit) \<le> length xs")
      case True
      then show ?thesis using a by (simp add: nat_add_distrib)
    next
      case False
      then show ?thesis using a by (simp add: nat_add_distrib)
    qed
    with False show ?thesis using a by (simp add: py_slice_def clip_def Let_def min_def)
  qed
qed

lemma matching_sorted:
  assumes "load_json fs MOVIES_FILE = JObj doc" "map_of doc ''movies'' = Some (JObj ms)"
    "list_all wf_movie (map snd ms)"
  shows "get_movies_by_category lower fs category limit offset =
     Inr (py_slice
       (sort_key (\<lambda>m. lower (movie_title m))
          (filter (\<lambda>m. category = ALL_CATEGORY \<or> JStr category \<in> set (movie_categories m))
             (map snd ms)))
       offset (offset + limit))"
proof (cases "category = ALL_CATEGORY")
  case True
  then show ?thesis using assms
    by (simp add: get_movies_by_category_eq bindE_simps sort_by_title)
next
  case False
  have "list_all wf_movie (filter (\<lambda>m. JStr category \<in> set (movie_categories m)) (map snd ms))"
    using assms(3) by (auto simp: list_all_iff)
  then show ?thesis using False assms
    by (simp add: get_movies_by_category_eq bindE_simps category_loop_wf sort_by_title)
qed

lemma lower_examples:
  "ascii_lower ''Zeta'' = ''zeta''" "ascii_lower ''Alpha'' = ''alpha''"
  "ascii_lower ''Mango'' = ''mango''" "ascii_lower ''beta'' = ''beta''"
  by (simp_all add: ascii_lower_def lower_char_def char_of_def bit_0)

lemma titles: "movie_title zeta = ''Zeta''" "movie_title alpha = ''Alpha''" "movie_title mango = ''Mango''" "movie_title drama = ''beta''"
  by (simp_all add: movie_title_def zeta_def alpha_def mango_def drama_def)

lemma cats: "movie_categories zeta = [JStr ''Action'']" "movie_categories alpha = [JStr ''Action'']" 
  "movie_categories mango = [JStr ''Action'', JStr ''Comedy'']" "movie_categories drama = [JStr ''Drama'']"
  by (simp_all add: movie_categories_def zeta_def alpha_def mango_def drama_def)

lemma wfs: "wf_movie zeta" "wf_movie alpha" "wf_movie mango" "wf_movie drama"
  by (simp_all add: wf_movie_def zeta_def alpha_def mango_def drama_def)

lemma S_action: "sort_key (\<lambda>m. ascii_lower (movie_title m))
          (filter (\<lambda>m. ''Action'' = ALL_CATEGORY \<or> JStr ''Action'' \<in> set (movie_categories m))
             (map snd [(''1'', zeta), (''2'', alpha), (''3'', drama), (''4'', mango)])) = [alpha, mango, zeta]"
  by (simp add: ALL_CATEGORY_def titles cats lower_examples)



lemma chunks:
  "0 < L \<Longrightarrow>
   \<exists>n. (\<forall>k<n. take L (drop (k * L) xs) \<noteq> []) \<and> take L (drop (n * L) xs) = []
      \<and> concat (map (\<lambda>k. take L (drop (k * L) xs)) [0..<n]) = xs"
proof (induction "length xs" arbitrary: xs rule: less_induct)
  case less
  show ?case
  proof (cases "xs = []")
    case True
    then show ?thesis by (intro exI [of _ 0]) simp
  next
    case False
    with less.prems have "length (drop L xs) < length xs" by simp
    from less.hyps [OF this less.prems] obtain n where
      n: "\<forall>k<n. take L (drop (k * L) (drop L xs)) \<noteq> []"
         "take L (drop (n * L) (drop L xs)) = []"
         "concat (map (\<lambda>k. take L (drop (k * L) (drop L xs))) [0..<n]) = drop L xs"
      by blast
    have sh: "take L (drop (k * L) (drop L xs)) = take L (drop (Suc k * L) xs)" for k
      by (simp add: add.commute)
    have 1: "\<forall>k<Suc n. take L (drop (k * L) xs) \<noteq> []"
    proof (intro allI impI)
      fix k assume "k < Suc n"
      show "take L (drop (k * L) xs) \<noteq> []"
      proof (cases k)
        case 0
        then show ?thesis using False less.prems by simp
      next
        case (Suc j)
        with \<open>k < Suc n\<close> n(1) have "take L (drop (j * L) (drop L xs)) \<noteq> []" by simp
        then show ?thesis unfolding sh Suc .
      qed
    qed
    have 2: "take L (drop (Suc n * L) xs) = []" using n(2) unfolding sh .
    have "concat (map (\<lambda>k. take L (drop (k * L) xs)) [0..<Suc n])
          = take L xs @ concat (map (\<lambda>k. take L (drop (Suc k * L) xs)) [0..<n])"
      by (simp only: upt_conv_Cons [of 0 "Suc n"] map_Suc_upt [symmetric])
         (simp add: comp_def del: upt_Suc)
    also have "\<dots> = take L xs @ drop L xs" using n(3) unfolding sh by simp
    finally have 3: "concat (map (\<lambda>k. take L (drop (k * L) xs)) [0..<Suc n]) = xs" by simp
    from 1 2 3 show ?thesis by blast
  qed
qed

text \<open>
  Claim C4, for the same documents, every case mapping \<open>lower\<close> and a limit \<open>L > 0\<close>:
  there is a number \<open>n\<close> of pages such that the calls at the offsets
  \<open>0, L, \<dots>, (n - 1) * L\<close> each return a page that is not empty, the call at \<open>n * L\<close>
  returns the empty page, and the pages before it, concatenated, are exactly the sorted
  list \<open>S\<close> of all the matching movies.
\<close>

theorem get_movies_by_category_pages:
  assumes "load_json fs MOVIES_FILE = JObj doc" "map_of doc ''movies'' = Some (JObj ms)"
    "list_all wf_movie (map snd ms)"
    and "S = sort_key (\<lambda>m. lower (movie_title m))
          (filter (\<lambda>m. category = ALL_CATEGORY \<or> JStr category \<in> set (movie_categories m))
             (map snd ms))"
    and "0 < L"
  shows "\<exists>n. (\<forall>k<n. \<exists>p. get_movies_by_category lower fs category L (int k * L) = Inr p \<and> p \<noteq> [])
     \<and> get_movies_by_category lower fs category L (int n * L) = Inr []
     \<and> concat (map (\<lambda>k. case get_movies_by_category lower fs category L (int k * L) of
                           Inr p \<Rightarrow> p | Inl e \<Rightarrow> []) [0..<n]) = S"
proof -
  have page: "get_movies_by_category lower fs category L (int k * L)
              = Inr (take (nat L) (drop (k * nat L) S))" for k
  proof -
    have "nat (int k * L) = k * nat L" using assms(5) by (simp add: nat_mult_distrib)
    then show ?thesis
      using matching_sorted [OF assms(1,2,3), of lower category L "int k * L"] assms(4,5)
        py_slice_nonneg [of "int k * L" L S]
      by simp
  qed
  from chunks [of "nat L" S] assms(5) obtain n where
    "\<forall>k<n. take (nat L) (drop (k * nat L) S) \<noteq> []"
    "take (nat L) (drop (n * nat L) S) = []"
    "concat (map (\<lambda>k. take (nat L) (drop (k * nat L) S)) [0..<n]) = S"
    by auto
  then show ?thesis by (intro exI [of _ n]) (simp add: page)
qed

theorem get_movies_by_category_pages_witness:
  "get_movies_by_category ascii_lower four_movies_fs ''Action'' 2 0 = Inr [alpha, mango]
   \<and> get_movies_by_category ascii_lower four_movies_fs ''Action'' 2 2 = Inr [zeta]
   \<and> get_movies_by_category ascii_lower four_movies_fs ''Action'' 2 4 = Inr []
   \<and> (\<exists>n. concat (map (\<lambda>k. case get_movies_by_category ascii_lower four_movies_fs ''Action'' 2 (int k * 2) of
                           Inr p \<Rightarrow> p | Inl e \<Rightarrow> []) [0..<n]) = [alpha, mango] @ [zeta])"
proof -
  let ?ms = "[(''1'', zeta), (''2'', alpha), (''3'', drama), (''4'', mango)]"
  have a: "load_json four_movies_fs MOVIES_FILE = JObj [(''next_id'', JInt 5), (''movies'', JObj ?ms)]"
    by (simp add: four_movies_fs_def no_files_def load_json_def)
  have b: "map_of [(''next_id'', JInt 5), (''movies'', JObj ?ms)] ''movies'' = Some (JObj ?ms)"
    by simp
  have c: "list_all wf_movie (map snd ?ms)" by (simp add: wfs)
  have s1: "[alpha, mango, zeta] = sort_key (\<lambda>m. ascii_lower (movie_title m))
          (filter (\<lambda>m. ''Action'' = ALL_CATEGORY \<or> JStr ''Action'' \<in> set (movie_categories m))
             (map snd ?ms))"
    by (simp add: ALL_CATEGORY_def titles cats lower_examples)
  have d: "(0::int) < 2" by simp
  have p: "get_movies_by_category ascii_lower four_movies_fs ''Action'' 2 0 = Inr [alpha, mango]"
     "get_movies_by_category ascii_lower four_movies_fs ''Action'' 2 2 = Inr [zeta]"
     "get_movies_by_category ascii_lower four_movies_fs ''Action'' 2 4 = Inr []"
    using matching_sorted [where lower = ascii_lower, OF a b c, of "''Action''" 2 0]
      matching_sorted [where lower = ascii_lower, OF a b c, of "''Action''" 2 2]
      matching_sorted [where lower = ascii_lower, OF a b c, of "''Action''" 2 4]
      py_slice_nonneg [of 0 2 "[alpha, mango, zeta]"]
      py_slice_nonneg [of 2 2 "[alpha, mango, zeta]"]
      py_slice_nonneg [of 4 2 "[alpha, mango, zeta]"]
    unfolding s1 [symmetric]
    by simp_all
  from get_movies_by_category_pages [where lower = ascii_lower, OF a b c s1 d] obtain n where
    "concat (map (\<lambda>k. case get_movies_by_category ascii_lower four_movies_fs ''Action'' 2 (int k * 2) of
                           Inr p \<Rightarrow> p | Inl e \<Rightarrow> []) [0..<n]) = [alpha, mango, zeta]"
    by blast
  then have "\<exists>n. concat (map (\<lambda>k. case get_movies_by_category ascii_lower four_movies_fs ''Action'' 2 (int k * 2) of
                           Inr p \<Rightarrow> p | Inl e \<Rightarrow> []) [0..<n]) = [alpha, mango] @ [zeta]"
    by (intro exI [of _ n]) simp
  with p show ?thesis by blast
qed

section \<open>Pending requests\<close>

lemma request_id_with_user [simp]: "request_id_of (with_user users r) = request_id_of r"
  by (cases r) (simp_all add: with_user_def request_id_of_def map_of_dict_set)

lemma is_pending_with_user [simp]: "is_pending (with_user users r) = is_pending r"
  by (cases r) (simp_all add: with_user_def is_pending_def map_of_dict_set)







section \<open>Counters\<close>

lemma digit_char_code: "d < 10 \<Longrightarrow> of_char (''0123456789'' ! d) = (48 + d :: nat)"
proof -
  assume "d < 10"
  then have "d = 0 \<or> d = 1 \<or> d = 2 \<or> d = 3 \<or> d = 4 \<or> d = 5 \<or> d = 6 \<or> d = 7 \<or> d = 8 \<or> d = 9"
    by arith
  then show ?thesis by (elim disjE) simp_all
qed

lemma decode_digits: "decode (digits n) = n"
proof (induction n rule: digits.induct)
  case (1 n)
  show ?case
  proof (cases "n < 10")
    case True
    then show ?thesis by (simp add: digits_small decode_def digit_char_code)
  next
    case False
    have "n mod 10 < 10" by simp
    with False 1 show ?thesis
      by (simp add: digits_big decode_def digit_char_code)
  qed
qed

lemma digits_head: "digits n \<noteq> [] \<and> hd (digits n) \<noteq> CHR ''-''"
proof (induction n rule: digits.induct)
  case (1 n)
  show ?case
  proof (cases "n < 10")
    case True
    have "''0123456789'' ! n \<noteq> CHR ''-''"
    proof
      assume e: "''0123456789'' ! n = CHR ''-''"
      have "of_char (CHR ''-'') = (45::nat)" by simp
      with digit_char_code [OF True] e show False by simp
    qed
    with True show ?thesis by (simp add: digits_small)
  next
    case False
    with 1 show ?thesis by (simp add: digits_big)
  qed
qed

text \<open>\<open>int_of_key\<close> reads the numeral of an integer as that integer.\<close>

lemma int_of_key_str: "int_of_key (str_int i) = Some i"
proof (cases "i < 0")
  case True
  then show ?thesis by (simp add: int_of_key_def str_int_def decode_digits)
next
  case False
  obtain c cs where d: "digits (nat i) = c # cs" "c \<noteq> CHR ''-''"
    using digits_head [of "nat i"] by (cases "digits (nat i)") auto
  have "decode (c # cs) = nat i" using decode_digits [of "nat i"] d by simp
  with False d show ?thesis by (simp add: int_of_key_def str_int_def)
qed

lemma fresh_key:
  assumes "\<And>i. num (str_int i) = Some i" "keys_below num n items"
  shows "str_int n \<notin> fst ` set items"
proof
  assume "str_int n \<in> fst ` set items"
  with assms(2) have "case num (str_int n) of None \<Rightarrow> True | Some i \<Rightarrow> i < n"
    by (auto simp: keys_below_def list_all_iff)
  then show False by (simp add: assms(1))
qed

lemma keys_below_after:
  assumes "\<And>i. num (str_int i) = Some i" "keys_below num n items"
  shows "keys_below num (n + 1) (dict_set (str_int n) v items)"
proof -
  have "\<forall>k\<in>fst ` set (dict_set (str_int n) v items).
          case num k of None \<Rightarrow> True | Some i \<Rightarrow> i < n + 1"
    unfolding keys_dict_set
    using assms by (auto simp: keys_below_def list_all_iff split: option.splits)
  then show ?thesis by (simp add: keys_below_def list_all_iff)
qed

lemma add_movie_result:
  assumes "fs MOVIES_FILE = Doc (JObj kvs)" "map_of kvs ''next_id'' = Some (JInt n)"
    "map_of kvs ''movies'' = Some (JObj items)"
  shows "add_movie fs now (JObj d) =
     (Inr (JInt n),
      fs(MOVIES_FILE := Doc (JObj (dict_set ''next_id'' (JInt (n + 1))
        (dict_set ''movies''
           (JObj (dict_set (str_int n)
              (JObj (dict_set ''download_count'' (JInt 0)
                 (dict_set ''added_at'' (JStr now) (dict_set ''movie_id'' (JInt n) d))))
              items))
           kvs)))))"
  using assms
  by (simp add: add_movie_def load_json_def finish_def bindE_simps save_json_def)

lemma add_movie_request_result:
  assumes "fs REQUESTS_FILE = Doc (JObj kvs)" "map_of kvs ''next_id'' = Some (JInt n)"
    "map_of kvs ''requests'' = Some (JObj items)"
  shows "add_movie_request fs now user_id movie_name =
     (Inr (JInt n),
      fs(REQUESTS_FILE := Doc (JObj (dict_set ''next_id'' (JInt (n + 1))
        (dict_set ''requests''
           (JObj (dict_set (str_int n)
              (JObj [(''request_id'', JInt n), (''user_id'', JInt user_id),
                     (''movie_name'', JStr movie_name), (''status'', JStr ''pending''),
                     (''requested_at'', JStr now)])
              items))
           kvs)))))"
  using assms
  by (simp add: add_movie_request_def load_json_def finish_def bindE_simps save_json_def)

lemma collection_ofD:
  "collection_of c name = Some (n, items) \<Longrightarrow>
   \<exists>kvs. c = Doc (JObj kvs) \<and> map_of kvs ''next_id'' = Some (JInt n)
         \<and> map_of kvs name = Some (JObj items)"
  by (auto simp: collection_of_def split: content.splits json.splits option.splits)

lemma collection_after:
  assumes "name \<noteq> ''next_id''"
  shows "collection_of (Doc (JObj (dict_set ''next_id'' (JInt m) (dict_set name (JObj items') kvs))))
           name = Some (m, items')"
  using assms by (simp add: collection_of_def map_of_dict_set)

lemma create_assigns_fresh_id:
  assumes num: "\<And>i. num (str_int i) = Some i"
    and inv: "counter_exceeds_keys num (fs p) name" and name: "name \<noteq> ''next_id''"
    and step: "\<And>kvs n items. fs p = Doc (JObj kvs) \<Longrightarrow> map_of kvs ''next_id'' = Some (JInt n) \<Longrightarrow>
       map_of kvs name = Some (JObj items) \<Longrightarrow>
       create = (Inr (JInt n), fs(p := Doc (JObj (dict_set ''next_id'' (JInt (n + 1))
          (dict_set name (JObj (dict_set (str_int n) (v n) items)) kvs)))))"
  shows "\<exists>n items fs'. collection_of (fs p) name = Some (n, items)
     \<and> create = (Inr (JInt n), fs')
     \<and> str_int n \<notin> fst ` set items
     \<and> collection_of (fs' p) name = Some (n + 1, dict_set (str_int n) (v n) items)
     \<and> counter_exceeds_keys num (fs' p) name"
proof -
  from inv obtain n items where c: "collection_of (fs p) name = Some (n, items)"
    and below: "keys_below num n items"
    by (auto simp: counter_exceeds_keys_def split: option.splits)
  from collection_ofD [OF c] obtain kvs where kvs: "fs p = Doc (JObj kvs)"
    "map_of kvs ''next_id'' = Some (JInt n)" "map_of kvs name = Some (JObj items)" by blast
  let ?fs' = "fs(p := Doc (JObj (dict_set ''next_id'' (JInt (n + 1))
          (dict_set name (JObj (dict_set (str_int n) (v n) items)) kvs))))"
  have r: "create = (Inr (JInt n), ?fs')" by (rule step [OF kvs])
  have c': "collection_of (?fs' p) name = Some (n + 1, dict_set (str_int n) (v n) items)"
    using collection_after [OF name] by simp
  have "counter_exceeds_keys num (?fs' p) name"
    unfolding counter_exceeds_keys_def c' using keys_below_after [OF num below] by simp
  with c r c' fresh_key [OF num below] show ?thesis by blast
qed

text \<open>A function that writes one file leaves the other files as they were.\<close>

lemma add_user_frame:
  "p \<noteq> USERS_FILE \<Longrightarrow> snd (add_user_if_not_exists fs now uid fn un) p = fs p"
  by (auto simp: add_user_if_not_exists_def finish_def bindE_def save_json_def Let_def
      split: sum.splits if_splits)

lemma add_admin_frame:
  "p \<noteq> ADMINS_FILE \<Longrightarrow> snd (add_admin fs now aid sn fn un) p = fs p"
  by (auto simp: add_admin_def finish_def bindE_def save_json_def Let_def
      split: sum.splits if_splits)

lemma remove_frame:
  "p \<noteq> q \<Longrightarrow> snd (remove_by_identifier fs q ident) p = fs p"
  by (auto simp: remove_by_identifier_def finish_def bindE_def save_json_def Let_def
      split: sum.splits if_splits option.splits)

lemma add_channel_frame:
  "p \<noteq> CHANNELS_FILE \<Longrightarrow> snd (add_channel fs now cid cn sn) p = fs p"
  by (auto simp: add_channel_def finish_def bindE_def save_json_def Let_def
      split: sum.splits if_splits)

lemma add_movie_frame:
  "p \<noteq> MOVIES_FILE \<Longrightarrow> snd (add_movie fs now d) p = fs p"
  by (auto simp: add_movie_def finish_def bindE_def save_json_def Let_def
      split: sum.splits if_splits)

lemma delete_movie_frame:
  "p \<noteq> MOVIES_FILE \<Longrightarrow> snd (delete_movie fs i) p = fs p"
  by (auto simp: delete_movie_def finish_def bindE_def save_json_def Let_def
      split: sum.splits if_splits)

lemma increment_frame:
  "p \<noteq> MOVIES_FILE \<Longrightarrow> snd (increment_download_count fs i) p = fs p"
  by (auto simp: increment_download_count_def finish_def bindE_def save_json_def Let_def
      split: sum.splits if_splits)

lemma add_request_frame:
  "p \<noteq> REQUESTS_FILE \<Longrightarrow> snd (add_movie_request fs now u m) p = fs p"
  by (auto simp: add_movie_request_def finish_def bindE_def save_json_def Let_def
      split: sum.splits if_splits)

lemma update_request_frame:
  "p \<noteq> REQUESTS_FILE \<Longrightarrow> snd (update_request_status fs now i st) p = fs p"
  by (auto simp: update_request_status_def finish_def bindE_def save_json_def Let_def
      split: sum.splits if_splits)

text \<open>What a function that writes the movies or the requests file does to the counter.\<close>

lemma next_id_ofD:
  "next_id_of c = Some n \<Longrightarrow> \<exists>kvs. c = Doc (JObj kvs) \<and> map_of kvs ''next_id'' = Some (JInt n)"
  by (auto simp: next_id_of_def split: content.splits json.splits option.splits)

lemma add_movie_counter:
  assumes "next_id_of (fs MOVIES_FILE) = Some n"
  shows "next_id_of (snd (add_movie fs now d) MOVIES_FILE) = Some n
       \<or> next_id_of (snd (add_movie fs now d) MOVIES_FILE) = Some (n + 1)"
proof -
  from next_id_ofD [OF assms] obtain kvs where
    "fs MOVIES_FILE = Doc (JObj kvs)" "map_of kvs ''next_id'' = Some (JInt n)" by blast
  then show ?thesis
    by (auto simp: add_movie_def load_json_def finish_def bindE_def save_json_def next_id_of_def
        map_of_dict_set Let_def split: sum.splits if_splits)
qed

lemma delete_movie_counter:
  assumes "next_id_of (fs MOVIES_FILE) = Some n"
  shows "next_id_of (snd (delete_movie fs i) MOVIES_FILE) = Some n"
proof -
  from next_id_ofD [OF assms] obtain kvs where
    "fs MOVIES_FILE = Doc (JObj kvs)" "map_of kvs ''next_id'' = Some (JInt n)" by blast
  then show ?thesis
    by (auto simp: delete_movie_def load_json_def finish_def bindE_def save_json_def
        next_id_of_def map_of_dict_set Let_def split: sum.splits if_splits)
qed

lemma increment_counter:
  assumes "next_id_of (fs MOVIES_FILE) = Some n"
  shows "next_id_of (snd (increment_download_count fs i) MOVIES_FILE) = Some n"
proof -
  from next_id_ofD [OF assms] obtain kvs where
    "fs MOVIES_FILE = Doc (JObj kvs)" "map_of kvs ''next_id'' = Some (JInt n)" by blast
  then show ?thesis
    by (auto simp: increment_download_count_def load_json_def finish_def bindE_def save_json_def
        next_id_of_def map_of_dict_set Let_def split: sum.splits if_splits)
qed

lemma add_request_counter:
  assumes "next_id_of (fs REQUESTS_FILE) = Some n"
  shows "next_id_of (snd (add_movie_request fs now u m) REQUESTS_FILE) = Some n
       \<or> next_id_of (snd (add_movie_request fs now u m) REQUESTS_FILE) = Some (n + 1)"
proof -
  from next_id_ofD [OF assms] obtain kvs where
    "fs REQUESTS_FILE = Doc (JObj kvs)" "map_of kvs ''next_id'' = Some (JInt n)" by blast
  then show ?thesis
    by (auto simp: add_movie_request_def load_json_def finish_def bindE_def save_json_def
        next_id_of_def map_of_dict_set Let_def split: sum.splits if_splits)
qed

lemma update_request_counter:
  assumes "next_id_of (fs REQUESTS_FILE) = Some n"
  shows "next_id_of (snd (update_request_status fs now i st) REQUESTS_FILE) = Some n"
proof -
  from next_id_ofD [OF assms] obtain kvs where
    "fs REQUESTS_FILE = Doc (JObj kvs)" "map_of kvs ''next_id'' = Some (JInt n)" by blast
  then show ?thesis
    by (auto simp: update_request_status_def load_json_def finish_def bindE_def save_json_def
        next_id_of_def map_of_dict_set Let_def split: sum.splits if_splits)
qed

lemma initialize_kept: "next_id_of (fs p) = Some n \<Longrightarrow> initialize_database fs p = fs p"
  by (auto simp: initialize_database_def next_id_of_def split: content.splits)

lemma counter_never_decreases:
  assumes "p = MOVIES_FILE \<or> p = REQUESTS_FILE" "next_id_of (fs p) = Some n"
  shows "\<exists>n'. next_id_of (snd (perform lower upper now c fs) p) = Some n' \<and> n \<le> n'"
proof (cases c)
  case InitializeDatabase
  then show ?thesis using assms(2) by (simp add: initialize_kept)
next
  case (AddUserIfNotExists x1 x2 x3)
  then show ?thesis using assms by (auto simp: add_user_frame)
next
  case (AddAdmin x1 x2 x3 x4)
  then show ?thesis using assms by (auto simp: add_admin_frame)
next
  case (RemoveAdmin x)
  then show ?thesis using assms by (auto simp: remove_admin_def remove_frame)
next
  case (AddMovie x)
  then show ?thesis using assms add_movie_counter [of fs n now x]
    by (auto simp: add_movie_frame)
next
  case (DeleteMovie x)
  then show ?thesis using assms delete_movie_counter [of fs n x]
    by (auto simp: delete_movie_frame)
next
  case (IncrementDownloadCount x)
  then show ?thesis using assms increment_counter [of fs n x]
    by (auto simp: increment_frame)
next
  case (AddChannel x1 x2 x3)
  then show ?thesis using assms by (auto simp: add_channel_frame)
next
  case (RemoveChannel x)
  then show ?thesis using assms by (auto simp: remove_channel_def remove_frame)
next
  case (AddMovieRequest x1 x2)
  then show ?thesis using assms add_request_counter [of fs n now x1 x2]
    by (auto simp: add_request_frame)
next
  case (UpdateRequestStatus x1 x2)
  then show ?thesis using assms update_request_counter [of fs n now x1 x2]
    by (auto simp: update_request_frame)
qed (use assms in \<open>simp_all add: query_io_files\<close>)

text \<open>
  Claim C6, for every reading \<open>num\<close> of keys as numbers that reads the decimal numeral of
  an integer as that integer (Python's \<^verbatim>\<open>int\<close> is one, \<open>int_of_key\<close> another). When the
  movies document holds an integer counter \<open>n\<close> and a dictionary of movies whose numeric
  keys are all below \<open>n\<close>, \<^verbatim>\<open>add_movie\<close> of a dictionary returns \<open>n\<close>, the numeral of \<open>n\<close> was
  not a key, and afterwards the counter is \<open>n + 1\<close>, the keys are the old ones and the
  numeral of \<open>n\<close>, and the numeric keys are all below the counter again. The same holds of
  \<^verbatim>\<open>add_movie_request\<close> on the requests document. And whatever call the store performs, a
  movies or requests document with an integer counter has an integer counter afterwards
  that is not smaller.
\<close>

theorem create_keeps_counter_above_keys:
  assumes "\<And>i. num (str_int i) = Some i"
  shows "(counter_exceeds_keys num (fs MOVIES_FILE) ''movies'' \<longrightarrow>
      (\<exists>n items fs' items'.
          collection_of (fs MOVIES_FILE) ''movies'' = Some (n, items)
          \<and> add_movie fs now (JObj d) = (Inr (JInt n), fs')
          \<and> str_int n \<notin> fst ` set items
          \<and> collection_of (fs' MOVIES_FILE) ''movies'' = Some (n + 1, items')
          \<and> fst ` set items' = insert (str_int n) (fst ` set items)
          \<and> counter_exceeds_keys num (fs' MOVIES_FILE) ''movies''))
   \<and> (counter_exceeds_keys num (fs REQUESTS_FILE) ''requests'' \<longrightarrow>
      (\<exists>n items fs' items'.
          collection_of (fs REQUESTS_FILE) ''requests'' = Some (n, items)
          \<and> add_movie_request fs now user_id movie_name = (Inr (JInt n), fs')
          \<and> str_int n \<notin> fst ` set items
          \<and> collection_of (fs' REQUESTS_FILE) ''requests'' = Some (n + 1, items')
          \<and> fst ` set items' = insert (str_int n) (fst ` set items)
          \<and> counter_exceeds_keys num (fs' REQUESTS_FILE) ''requests''))
   \<and> ((p = MOVIES_FILE \<or> p = REQUESTS_FILE) \<and> next_id_of (fs p) = Some c \<longrightarrow>
      (\<exists>c'. next_id_of (snd (perform lower upper now op fs) p) = Some c' \<and> c \<le> c'))"
proof (intro conjI impI)
  assume inv: "counter_exceeds_keys num (fs MOVIES_FILE) ''movies''"
  have ne: "''movies'' \<noteq> ''next_id''" by simp
  from create_assigns_fresh_id [where create = "add_movie fs now (JObj d)"
      and v = "\<lambda>n. JObj (dict_set ''download_count'' (JInt 0)
                 (dict_set ''added_at'' (JStr now) (dict_set ''movie_id'' (JInt n) d)))",
      OF assms inv ne add_movie_result]
  obtain n items fs' where
    "collection_of (fs MOVIES_FILE) ''movies'' = Some (n, items)"
    "add_movie fs now (JObj d) = (Inr (JInt n), fs')"
    "str_int n \<notin> fst ` set items"
    "collection_of (fs' MOVIES_FILE) ''movies'' = Some (n + 1, dict_set (str_int n)
       (JObj (dict_set ''download_count'' (JInt 0)
                 (dict_set ''added_at'' (JStr now) (dict_set ''movie_id'' (JInt n) d)))) items)"
    "counter_exceeds_keys num (fs' MOVIES_FILE) ''movies''"
    by blast
  then show "\<exists>n items fs' items'.
          collection_of (fs MOVIES_FILE) ''movies'' = Some (n, items)
          \<and> add_movie fs now (JObj d) = (Inr (JInt n), fs')
          \<and> str_int n \<notin> fst ` set items
          \<and> collection_of (fs' MOVIES_FILE) ''movies'' = Some (n + 1, items')
          \<and> fst ` set items' = insert (str_int n) (fst ` set items)
          \<and> counter_exceeds_keys num (fs' MOVIES_FILE) ''movies''"
    using keys_dict_set by blast
next
  assume inv: "counter_exceeds_keys num (fs REQUESTS_FILE) ''requests''"
  have ne: "''requests'' \<noteq> ''next_id''" by simp
  from create_assigns_fresh_id [where create = "add_movie_request fs now user_id movie_name"
      and v = "\<lambda>n. JObj [(''request_id'', JInt n), (''user_id'', JInt user_id),
                     (''movie_name'', JStr movie_name), (''status'', JStr ''pending''),
                     (''requested_at'', JStr now)]",
      OF assms inv ne add_movie_request_result]
  obtain n items fs' where
    "collection_of (fs REQUESTS_FILE) ''requests'' = Some (n, items)"
    "add_movie_request fs now user_id movie_name = (Inr (JInt n), fs')"
    "str_int n \<notin> fst ` set items"
    "collection_of (fs' REQUESTS_FILE) ''requests'' = Some (n + 1, dict_set (str_int n)
       (JObj [(''request_id'', JInt n), (''user_id'', JInt user_id),
                     (''movie_name'', JStr movie_name), (''status'', JStr ''pending''),
                     (''requested_at'', JStr now)]) items)"
    "counter_exceeds_keys num (fs' REQUESTS_FILE) ''requests''"
    by blast
  then show "\<exists>n items fs' items'.
          collection_of (fs REQUESTS_FILE) ''requests'' = Some (n, items)
          \<and> add_movie_request fs now user_id movie_name = (Inr (JInt n), fs')
          \<and> str_int n \<notin> fst ` set items
          \<and> collection_of (fs' REQUESTS_FILE) ''requests'' = Some (n + 1, items')
          \<and> fst ` set items' = insert (str_int n) (fst ` set items)
          \<and> counter_exceeds_keys num (fs' REQUESTS_FILE) ''requests''"
    using keys_dict_set by blast
next
  assume "(p = MOVIES_FILE \<or> p = REQUESTS_FILE) \<and> next_id_of (fs p) = Some c"
  then show "\<exists>c'. next_id_of (snd (perform lower upper now op fs) p) = Some c' \<and> c \<le> c'"
    using counter_never_decreases [of p fs c lower upper now op] by blast
qed

lemma keys_eval:
  "int_of_key ''1'' = Some 1" "int_of_key ''2'' = Some 2" "int_of_key ''3'' = Some 3"
  by (simp_all add: int_of_key_def decode_def eval_str)

theorem create_keeps_counter_above_keys_witness:
  "counter_exceeds_keys int_of_key (one_movie_fs MOVIES_FILE) ''movies''
   \<and> add_movie one_movie_fs ''2024-01-02T00:00:00''
        (JObj [(''title'', JStr ''Heat''), (''added_by'', JInt 5)]) = (Inr (JInt 2), two_movies_fs)
   \<and> counter_exceeds_keys int_of_key (two_movies_fs MOVIES_FILE) ''movies''
   \<and> next_id_of (one_movie_fs MOVIES_FILE) = Some 2
   \<and> next_id_of (two_movies_fs MOVIES_FILE) = Some 3
   \<and> counter_exceeds_keys int_of_key (two_requests_fs REQUESTS_FILE) ''requests''
   \<and> fst (add_movie_request two_requests_fs ''2024-01-02T00:00:00'' 7 ''Alien'') = Inr (JInt 4)"
proof -
  have a: "counter_exceeds_keys int_of_key (one_movie_fs MOVIES_FILE) ''movies''"
    by (simp add: counter_exceeds_keys_def keys_below_def collection_of_def one_movie_fs_def
        no_files_def keys_eval)
  have b: "counter_exceeds_keys int_of_key (two_requests_fs REQUESTS_FILE) ''requests''"
    by (simp add: counter_exceeds_keys_def keys_below_def collection_of_def two_requests_fs_def
        no_files_def keys_eval)
  have m: "add_movie one_movie_fs ''2024-01-02T00:00:00''
        (JObj [(''title'', JStr ''Heat''), (''added_by'', JInt 5)]) = (Inr (JInt 2), two_movies_fs)"
    by (simp add: add_movie_def one_movie_fs_def two_movies_fs_def no_files_def load_json_def
        save_json_def finish_def bindE_simps eval_str)
  have c: "collection_of (one_movie_fs MOVIES_FILE) ''movies'' = Some (2,
       [(''1'', JObj [(''title'', JStr ''Dune''), (''added_by'', JInt 5), (''movie_id'', JInt 1),
                      (''added_at'', JStr ''2024-01-01T00:00:00''),
                      (''download_count'', JInt 0)])])"
    by (simp add: collection_of_def one_movie_fs_def no_files_def)
  have r: "collection_of (two_requests_fs REQUESTS_FILE) ''requests'' = Some (4,
       [(''1'', inception_request), (''2'', dune_request), (''3'', heat_request)])"
    by (simp add: collection_of_def two_requests_fs_def no_files_def)
  have n: "next_id_of (one_movie_fs MOVIES_FILE) = Some 2"
    "next_id_of (two_movies_fs MOVIES_FILE) = Some 3"
    by (simp_all add: next_id_of_def one_movie_fs_def two_movies_fs_def no_files_def)
  note t = create_keeps_counter_above_keys [where num = int_of_key and fs = one_movie_fs
      and now = "''2024-01-02T00:00:00''"
      and d = "[(''title'', JStr ''Heat''), (''added_by'', JInt 5)]"
      and user_id = 7 and movie_name = "''Alien''" and p = MOVIES_FILE and c = 2
      and lower = ascii_lower and upper = ascii_upper
      and op = "AddMovie (JObj [(''title'', JStr ''Heat''), (''added_by'', JInt 5)])",
      OF int_of_key_str]
  note u = create_keeps_counter_above_keys [where num = int_of_key and fs = two_requests_fs
      and now = "''2024-01-02T00:00:00''"
      and d = "[(''title'', JStr ''Heat''), (''added_by'', JInt 5)]"
      and user_id = 7 and movie_name = "''Alien''" and p = REQUESTS_FILE and c = 4
      and lower = ascii_lower and upper = ascii_upper
      and op = "AddMovieRequest 7 ''Alien''",
      OF int_of_key_str]
  from t a m c have 1: "counter_exceeds_keys int_of_key (two_movies_fs MOVIES_FILE) ''movies''"
    by auto
  from u b r have 2: "fst (add_movie_request two_requests_fs ''2024-01-02T00:00:00'' 7 ''Alien'')
     = Inr (JInt 4)"
    by auto
  show ?thesis using a b m n 1 2 by simp
qed

end
